theory Spec2Isabelle
  imports Complex_Main "HOL-Library.Multiset"
begin

chapter \<open>Model\<close>

section \<open>Numerical conventions\<close>

text \<open>
  The program computes with NumPy arrays of double-precision floats. The model takes a
  finite float to be a \<^typ>\<open>real\<close> and an array to be a list. Exceptions of the
  interpreter are values of \<open>error\<close>. NumPy does not raise on a division by zero
  (it yields \<open>inf\<close> or \<open>nan\<close> under a warning); since the reals have no such
  values, the model reports \<open>NonFinite\<close> wherever the source would produce one.
\<close>

datatype error =
    ValueError
  | IndexError
  | AssertionError
  | AttributeError
  | TypeError
  | ZeroDivisionError
  | KeyError
  | NonFinite

text \<open>\<^verbatim>\<open>np.cumsum(w)\<close>: running sums, left to right.\<close>

fun cumsum_from :: "real \<Rightarrow> real list \<Rightarrow> real list" where
  "cumsum_from acc [] = []"
| "cumsum_from acc (x # xs) = (acc + x) # cumsum_from (acc + x) xs"

definition cumsum :: "real list \<Rightarrow> real list" where
  "cumsum xs = cumsum_from 0 xs"

text \<open>\<^verbatim>\<open>a.max()\<close>: raises \<open>ValueError\<close> on an empty array.\<close>

fun np_max :: "real list \<Rightarrow> error + real" where
  "np_max [] = Inl ValueError"
| "np_max (x # xs) = Inr (fold max xs x)"

text \<open>
  Broadcasting of a one-dimensional operand \<open>b\<close> against an array of length \<open>n\<close>
  that is updated in place: \<open>b\<close> has length \<open>n\<close>, or length one.
\<close>

definition bcast :: "nat \<Rightarrow> real list \<Rightarrow> error + real list" where
  "bcast n b =
     (if length b = n then Inr b
      else if length b = 1 then Inr (replicate n (hd b))
      else Inl ValueError)"

text \<open>\<^verbatim>\<open>importance / importance.max()\<close>\<close>

definition div_by_max :: "real list \<Rightarrow> error + real list" where
  "div_by_max importance =
     (case np_max importance of
        Inl e \<Rightarrow> Inl e
      | Inr m \<Rightarrow> if m = 0 then Inl NonFinite else Inr (map (\<lambda>x. x / m) importance))"

section \<open>Importance functions\<close>

text \<open>
  \<^verbatim>\<open>
  def z_importance(w, nlive, exact=False):
      importance = np.cumsum(w)
      importance = importance.max() - importance
      if exact:
          importance *= (((nlive ** 2) - 3) * (nlive ** 1.5))
          importance /= (((nlive + 1) ** 3) * ((nlive + 2) ** 1.5))
          importance += w * (nlive ** 0.5) / ((nlive + 2) ** 1.5)
      else:
          importance *= 1.0 / nlive
      return importance / importance.max()
  \<close>
\<close>

definition z_exact_weight :: "real list \<Rightarrow> real list \<Rightarrow> real list \<Rightarrow> error + real list" where
  "z_exact_weight importance w nl =
     (if \<exists>n \<in> set nl. n < 0 then Inl NonFinite
      else Inr (map (\<lambda>(imp, wi, n).
             imp * ((n ^ 2 - 3) * (n powr 1.5)) / ((n + 1) ^ 3 * ((n + 2) powr 1.5))
               + wi * (n powr 0.5) / ((n + 2) powr 1.5))
           (zip importance (zip w nl))))"

definition z_plain_weight :: "real list \<Rightarrow> real list \<Rightarrow> error + real list" where
  "z_plain_weight importance nl =
     (if 0 \<in> set nl then Inl NonFinite
      else Inr (map (\<lambda>(imp, n). imp * (1 / n)) (zip importance nl)))"

definition z_importance :: "real list \<Rightarrow> real list \<Rightarrow> bool \<Rightarrow> error + real list" where
  "z_importance w nlive exact =
     (case np_max (cumsum w) of
        Inl e \<Rightarrow> Inl e
      | Inr m \<Rightarrow>
          (let importance = map (\<lambda>c. m - c) (cumsum w) in
           case bcast (length w) nlive of
             Inl e \<Rightarrow> Inl e
           | Inr nl \<Rightarrow>
               (case (if exact then z_exact_weight importance w nl
                      else z_plain_weight importance nl) of
                  Inl e \<Rightarrow> Inl e
                | Inr importance' \<Rightarrow> div_by_max importance')))"

text \<open>
  The evidence importance as the specification words it: the tail cumulative weight
  \<open>t[i] = \<Sum>\<^sub>j\<^sub>\<ge>\<^sub>i w[j]\<close>, divided by \<open>nlive[i]\<close>, rescaled so that the
  maximum is one.
\<close>

definition tail_from :: "real list \<Rightarrow> nat \<Rightarrow> real" where
  "tail_from w i = sum_list (drop i w)"

definition z_importance_spec :: "real list \<Rightarrow> real list \<Rightarrow> real list" where
  "z_importance_spec w nlive =
     (let t = map (\<lambda>i. tail_from w i / nlive ! i) [0..<length w]
      in map (\<lambda>x. x / Max (set t)) t)"

text \<open>What the code computes: the weight strictly after index \<open>i\<close>.\<close>

definition tail_after :: "real list \<Rightarrow> nat \<Rightarrow> real" where
  "tail_after w i = sum_list (drop (Suc i) w)"

definition z_unscaled :: "real list \<Rightarrow> real list \<Rightarrow> real list" where
  "z_unscaled w nlive = map (\<lambda>i. tail_after w i / nlive ! i) [0..<length w]"

section \<open>Settings, collaborators and randomness\<close>

text \<open>
  The settings object, with the fields and methods the functions below read. A field
  that may hold \<open>None\<close> is an option.
\<close>

record settings =
  n_dim :: int
  dims_to_sample :: int
  nlive_const :: nat
  ninit :: nat
  termination_fraction :: real
  dynamic_goal :: "real option"
  n_samples_max :: "real option"
  nbatch :: int
  dynamic_fraction :: real
  tuned_dynamic_p :: bool
  logx_terminate :: "real option"
  r_given_logx :: "real \<Rightarrow> real"
  logl_given_r :: "real \<Rightarrow> real"

text \<open>
  One row of the samples matrix, whose columns are
  \<^verbatim>\<open>[logl, r, logx, thread label, change in nlive, params]\<close>.
\<close>

record sample =
  s_logl :: real
  s_r :: real
  s_logx :: real
  s_label :: real
  s_dnlive :: real
  s_theta :: "real list"

text \<open>
  The run dictionary, with the keys \<^verbatim>\<open>logl\<close>, \<^verbatim>\<open>r\<close>, \<^verbatim>\<open>logx\<close>,
  \<^verbatim>\<open>thread_labels\<close>, \<^verbatim>\<open>theta\<close>, \<^verbatim>\<open>nlive_array\<close> and
  \<^verbatim>\<open>thread_min_max\<close>. A thread that starts by sampling the whole prior has
  \<open>nan\<close> as its first likelihood, here \<open>None\<close>.
\<close>

record run =
  run_logl :: "real list"
  run_r :: "real list"
  run_logx :: "real list"
  run_thread_labels :: "real list"
  run_theta :: "real list list"
  run_nlive_array :: "real list"
  run_thread_min_max :: "(real option \<times> real) list"

text \<open>
  The modules \<^verbatim>\<open>maths_functions\<close> and \<^verbatim>\<open>analysis_utils\<close> are imported by the
  sources and are not among them. Their functions are parameters of the model. So is
  \<^verbatim>\<open>np.argsort\<close>, which the sources call with its default algorithm: that
  algorithm is not stable, and which of the sorting permutations it returns is not
  determined by its arguments' values alone.
\<close>

record library =
  argsort :: "real list \<Rightarrow> nat list"
  sample_nsphere_shells :: "real list \<Rightarrow> int \<Rightarrow> int \<Rightarrow> real list list"
  samples_array_given_run :: "run \<Rightarrow> sample list"
  dict_given_samples_array :: "sample list \<Rightarrow> (real option \<times> real) list \<Rightarrow> run"
  get_logw :: "real list \<Rightarrow> real list \<Rightarrow> real list"

text \<open>
  Randomness. Every random number the modelled functions use is a value of
  \<^verbatim>\<open>np.log(np.random.random())\<close>. The generator is the sequence \<open>rng\<close> of
  the values that successive calls return, and the state is the number of calls made
  so far.
\<close>

type_synonym rng = "nat \<Rightarrow> real"

section \<open>Thread generator\<close>

text \<open>
  \<^verbatim>\<open>
  def generate_thread_logx(logx_end, logx_start=0, keep_final_point=True):
      logx_list = [logx_start + np.log(np.random.random())]
      while logx_list[-1] > logx_end:
          logx_list.append(logx_list[-1] + np.log(np.random.random()))
      if not keep_final_point:
          del logx_list[-1]
      return logx_list
  \<close>
  The loop may run forever; not returning is the value \<open>None\<close>.
\<close>

partial_function (option) thread_logx_loop ::
  "rng \<Rightarrow> real \<Rightarrow> real list \<Rightarrow> nat \<Rightarrow> (real list \<times> nat) option" where
  "thread_logx_loop rng logx_end logx_list pos =
     (if last logx_list > logx_end
      then thread_logx_loop rng logx_end (logx_list @ [last logx_list + rng pos]) (Suc pos)
      else Some (logx_list, pos))"

definition generate_thread_logx ::
  "rng \<Rightarrow> real \<Rightarrow> real \<Rightarrow> bool \<Rightarrow> nat \<Rightarrow> (real list \<times> nat) option" where
  "generate_thread_logx rng logx_end logx_start keep_final_point pos =
     (case thread_logx_loop rng logx_end [logx_start + rng pos] (Suc pos) of
        None \<Rightarrow> None
      | Some (logx_list, pos') \<Rightarrow>
          Some (if \<not> keep_final_point then butlast logx_list else logx_list, pos'))"

text \<open>
  \<^verbatim>\<open>
  def generate_single_thread(settings, logx_end, thread_label, logx_start=0,
                             keep_final_point=True):
      if logx_end is None:
          logx_end = settings.logx_terminate
      assert logx_start > logx_end, ...
      logx_list = generate_thread_logx(logx_end, logx_start=logx_start,
                                       keep_final_point=keep_final_point)
      if not logx_list:
          return None
      else:
          lrxtn = np.zeros((len(logx_list), 5))
          lrxtn[:, 3] = thread_label
          lrxtn[:, 2] = np.asarray(logx_list)
          lrxtn[:, 1] = settings.r_given_logx(lrxtn[:, 2])
          lrxtn[:, 0] = settings.logl_given_r(lrxtn[:, 1])
          lrxtn[-1, 4] = -1
          theta = mf.sample_nsphere_shells(lrxtn[:, 1], settings.n_dim,
                                           settings.dims_to_sample)
          return np.hstack([lrxtn, theta])
  \<close>
  The value returned is \<open>None\<close> or the rows of the thread. A comparison with
  \<open>None\<close> raises \<open>TypeError\<close>; \<^verbatim>\<open>np.hstack\<close> raises \<open>ValueError\<close> when
  the two blocks differ in their number of rows.
\<close>

definition thread_rows :: "settings \<Rightarrow> real \<Rightarrow> real list \<Rightarrow> real list list \<Rightarrow> sample list" where
  "thread_rows st thread_label logx_list thetas =
     map (\<lambda>i. \<lparr> s_logl = logl_given_r st (r_given_logx st (logx_list ! i)),
                s_r = r_given_logx st (logx_list ! i),
                s_logx = logx_list ! i,
                s_label = thread_label,
                s_dnlive = (if Suc i = length logx_list then - 1 else 0),
                s_theta = thetas ! i \<rparr>)
         [0..<length logx_list]"

definition generate_single_thread ::
  "settings \<Rightarrow> library \<Rightarrow> rng \<Rightarrow> real option \<Rightarrow> real \<Rightarrow> real \<Rightarrow> bool \<Rightarrow> nat
     \<Rightarrow> (error + sample list option \<times> nat) option" where
  "generate_single_thread st lib rng logx_end thread_label logx_start keep_final_point pos =
     (case (case logx_end of None \<Rightarrow> logx_terminate st | Some e \<Rightarrow> Some e) of
        None \<Rightarrow> Some (Inl TypeError)
      | Some e \<Rightarrow>
          if \<not> logx_start > e then Some (Inl AssertionError)
          else
            (case generate_thread_logx rng e logx_start keep_final_point pos of
               None \<Rightarrow> None
             | Some (logx_list, pos') \<Rightarrow>
                 if logx_list = [] then Some (Inr (None, pos'))
                 else
                   (let thetas = sample_nsphere_shells lib (map (r_given_logx st) logx_list)
                                   (n_dim st) (dims_to_sample st)
                    in if length thetas \<noteq> length logx_list then Some (Inl ValueError)
                       else Some (Inr (Some (thread_rows st thread_label logx_list thetas),
                                       pos')))))"

text \<open>
  The earlier version of the generator, in \<^verbatim>\<open>npns/nested_sampling.py\<close>:
  \<^verbatim>\<open>
      if len(logx_list) == 0:
          return None
      else:
          lrx = np.zeros((len(logx_list), 3))
          ...
          return np.hstack(lrx, settings.sample_contours(lrx[:, 2]))
  \<close>
  There \<^verbatim>\<open>np.hstack\<close> is given two positional arguments where it takes one
  sequence, which raises \<open>TypeError\<close>.
\<close>

definition npns_generate_single_thread ::
  "settings \<Rightarrow> rng \<Rightarrow> real option \<Rightarrow> real \<Rightarrow> bool \<Rightarrow> nat
     \<Rightarrow> (error + sample list option \<times> nat) option" where
  "npns_generate_single_thread st rng logx_end logx_start keep_final_point pos =
     (case (case logx_end of None \<Rightarrow> logx_terminate st | Some e \<Rightarrow> Some e) of
        None \<Rightarrow> Some (Inl TypeError)
      | Some e \<Rightarrow>
          if \<not> logx_start > e then Some (Inl AssertionError)
          else
            (case generate_thread_logx rng e logx_start keep_final_point pos of
               None \<Rightarrow> None
             | Some (logx_list, pos') \<Rightarrow>
                 if length logx_list = 0 then Some (Inr (None, pos'))
                 else Some (Inl TypeError)))"

text \<open>
  What \<^verbatim>\<open>np.argsort\<close> guarantees of its result on the array \<open>xs\<close>: it is a
  permutation of the indices of \<open>xs\<close>, and it lists the values in ascending order.
\<close>

definition argsort_ok :: "real list \<Rightarrow> nat list \<Rightarrow> bool" where
  "argsort_ok xs p \<longleftrightarrow> mset p = mset [0..<length xs] \<and> sorted (map (\<lambda>i. xs ! i) p)"

text \<open>Two sorting permutations: ties in ascending and in descending order of index.\<close>

definition argsort_stable :: "real list \<Rightarrow> nat list" where
  "argsort_stable xs = sort_key (\<lambda>i. xs ! i) [0..<length xs]"


text \<open>
  A small concrete problem, used to run the definitions: one dimension, radius
  \<open>r = - logx\<close>, log-likelihood \<open>- r\<close>, and a shell sampler that returns the
  radius itself as the only coordinate.
\<close>

definition example_settings :: settings where
  "example_settings =
     \<lparr> n_dim = 1, dims_to_sample = 1, nlive_const = 2, ninit = 1,
       termination_fraction = 1 / 2, dynamic_goal = Some 0, n_samples_max = Some 3,
       nbatch = 1, dynamic_fraction = 1 / 2, tuned_dynamic_p = False,
       logx_terminate = None,
       r_given_logx = (\<lambda>x. - x), logl_given_r = (\<lambda>x. - x) \<rparr>"

definition example_shells :: "real list \<Rightarrow> int \<Rightarrow> int \<Rightarrow> real list list" where
  "example_shells rs n d = map (\<lambda>x. [x]) rs"

text \<open>
  Stand-ins for the functions of \<^verbatim>\<open>analysis_utils\<close>, to run the examples. They
  follow the specification's description of the samples model: a run's rows with
  \<open>- 1\<close> as the change in live points where a thread ends; the count of live
  points as the number of threads born from the whole prior plus the changes at the
  rows before; and, in place of the quadrature weights, equal weights.
\<close>

definition example_samples_array :: "run \<Rightarrow> sample list" where
  "example_samples_array rn =
     map (\<lambda>i. \<lparr> s_logl = run_logl rn ! i, s_r = run_r rn ! i, s_logx = run_logx rn ! i,
                s_label = run_thread_labels rn ! i,
                s_dnlive = (if run_logl rn ! i \<in> snd ` set (run_thread_min_max rn)
                            then - 1 else 0),
                s_theta = run_theta rn ! i \<rparr>)
         [0..<length (run_logl rn)]"

definition example_dict :: "sample list \<Rightarrow> (real option \<times> real) list \<Rightarrow> run" where
  "example_dict samples tmm =
     \<lparr> run_logl = map s_logl samples,
       run_r = map s_r samples,
       run_logx = map s_logx samples,
       run_thread_labels = map s_label samples,
       run_theta = map s_theta samples,
       run_nlive_array =
         map (\<lambda>i. real (length (filter (\<lambda>t. fst t = None) tmm))
                    + sum_list (map s_dnlive (take i samples)))
           [0..<length samples],
       run_thread_min_max = tmm \<rparr>"

definition example_library :: library where
  "example_library =
     \<lparr> argsort = argsort_stable,
       sample_nsphere_shells = example_shells,
       samples_array_given_run = example_samples_array,
       dict_given_samples_array = example_dict,
       get_logw = (\<lambda>logl nlive. map (\<lambda>x. 0) logl) \<rparr>"

text \<open>Draws for examples: \<open>log(U) = - 1\<close> first, \<open>- 10\<close> ever after.\<close>

definition example_rng :: rng where
  "example_rng = (\<lambda>k. if k = 0 then - 1 else - 10)"

section \<open>Insertion interval of the dynamic driver\<close>

text \<open>\<^verbatim>\<open>np.where(cond)[0]\<close>: the indices at which the condition holds, ascending.\<close>

definition np_where :: "('a \<Rightarrow> bool) \<Rightarrow> 'a list \<Rightarrow> nat list" where
  "np_where P xs = filter (\<lambda>i. P (xs ! i)) [0..<length xs]"

text \<open>
  The lookup of a \<open>logx\<close> by the value of \<open>logl\<close>:
  \<^verbatim>\<open>
          ind = np.where(samples[:, 0] == logl_min)[0]
          assert ind.shape == (1,), 'Should be one unique match for logl=logl_min=' ...
          logx_min = samples[ind[0], 2]
  \<close>
\<close>

definition lookup_logx :: "sample list \<Rightarrow> real \<Rightarrow> error + real" where
  "lookup_logx samples key =
     (let ind = np_where (\<lambda>s. s_logl s = key) samples
      in if length ind \<noteq> 1 then Inl AssertionError
         else Inr (s_logx (samples ! hd ind)))"

text \<open>
  \<^verbatim>\<open>
  def min_max_importance(importance, samples, settings):
      assert settings.dynamic_fraction > 0. and settings.dynamic_fraction < 1., ...
      high_importance_inds = np.where(importance > settings.dynamic_fraction)[0]
      if high_importance_inds[0] == 0:
          logl_min = np.nan
          logx_min = 0
      else:
          logl_min = samples[:, 0][high_importance_inds[0] - 1]
          ind = np.where(samples[:, 0] == logl_min)[0]
          assert ind.shape == (1,), ...
          logx_min = samples[ind[0], 2]
      if high_importance_inds[-1] == samples[:, 0].shape[0] - 1:
          logl_max = samples[-1, 0]
          logx_max = samples[-1, 2]
      else:
          logl_max = samples[:, 0][(high_importance_inds[-1] + 1)]
          ind = np.where(samples[:, 0] == logl_max)[0]
          assert ind.shape == (1,), ...
          logx_max = samples[ind[0], 2]
      return [logl_min, logl_max], [logx_min, logx_max]
  \<close>
  Indexing an empty index array, or a row past the end, raises \<open>IndexError\<close>. The
  value \<open>nan\<close> of \<open>logl_min\<close> is \<open>None\<close>.
\<close>

definition min_max_importance ::
  "real list \<Rightarrow> sample list \<Rightarrow> settings
     \<Rightarrow> error + ((real option \<times> real) \<times> (real \<times> real))" where
  "min_max_importance importance samples st =
     (if \<not> (dynamic_fraction st > 0 \<and> dynamic_fraction st < 1) then Inl AssertionError
      else
        let high_importance_inds = np_where (\<lambda>x. x > dynamic_fraction st) importance in
        if high_importance_inds = [] then Inl IndexError
        else
          case (if hd high_importance_inds = 0 then Inr (None, 0)
                else if \<not> hd high_importance_inds - 1 < length samples then Inl IndexError
                else
                  let logl_min = s_logl (samples ! (hd high_importance_inds - 1)) in
                  case lookup_logx samples logl_min of
                    Inl e \<Rightarrow> Inl e
                  | Inr logx_min \<Rightarrow> Inr (Some logl_min, logx_min)) of
            Inl e \<Rightarrow> Inl e
          | Inr (logl_min, logx_min) \<Rightarrow>
              (case (if int (last high_importance_inds) = int (length samples) - 1
                     then Inr (s_logl (last samples), s_logx (last samples))
                     else if \<not> last high_importance_inds + 1 < length samples
                     then Inl IndexError
                     else
                       let logl_max = s_logl (samples ! (last high_importance_inds + 1)) in
                       case lookup_logx samples logl_max of
                         Inl e \<Rightarrow> Inl e
                       | Inr logx_max \<Rightarrow> Inr (logl_max, logx_max)) of
                 Inl e \<Rightarrow> Inl e
               | Inr (logl_max, logx_max) \<Rightarrow>
                   Inr ((logl_min, logl_max), (logx_min, logx_max))))"

text \<open>The number of samples whose \<open>logl\<close> equals a key.\<close>

definition count_logl :: "sample list \<Rightarrow> real \<Rightarrow> nat" where
  "count_logl samples key = length (filter (\<lambda>s. s_logl s = key) samples)"

text \<open>Rows for examples: a sample with the given \<open>logl\<close> and \<open>logx\<close>.\<close>

definition row :: "real \<Rightarrow> real \<Rightarrow> sample" where
  "row l x = \<lparr> s_logl = l, s_r = - x, s_logx = x, s_label = 1, s_dnlive = 0, s_theta = [- x] \<rparr>"

section \<open>Standard nested sampling run\<close>

text \<open>
  A live point is a row with the columns
  \<^verbatim>\<open>[loglikelihood, radial coordinate, logx coordinate, thread label]\<close>.
\<close>

record live_point =
  lp_logl :: real
  lp_r :: real
  lp_logx :: real
  lp_label :: real

text \<open>
  \<^verbatim>\<open>scipy.misc.logsumexp(a)\<close> on a non-empty array. The log-evidence of the dead
  points starts at \<^verbatim>\<open>-np.inf\<close>, here \<open>None\<close>;
  \<^verbatim>\<open>logsumexp((logz_dead, x))\<close> is then \<open>x\<close>.
\<close>

definition logsumexp :: "real list \<Rightarrow> real" where
  "logsumexp a = ln (\<Sum>x\<leftarrow>a. exp x)"

fun logsumexp_pair :: "real option \<Rightarrow> real \<Rightarrow> real" where
  "logsumexp_pair None x = x"
| "logsumexp_pair (Some d) x = ln (exp d + exp x)"

text \<open>The variables of the replacement loop, and the number of random draws made.\<close>

record std_state =
  live_points :: "live_point list"
  logx_i :: real
  logz_dead :: "real option"
  logz_live :: real
  dead_points_list :: "live_point list"
  rng_pos :: nat

text \<open>
  The live evidence of the termination rule:
  \<^verbatim>\<open>scipy.misc.logsumexp(live_points[:, 0]) + logx_i - np.log(nlive_const)\<close>.
\<close>

definition logz_live_formula :: "live_point list \<Rightarrow> real \<Rightarrow> nat \<Rightarrow> real" where
  "logz_live_formula live lxi nlive = logsumexp (map lp_logl live) + lxi - ln (real nlive)"

text \<open>
  The loop condition
  \<^verbatim>\<open>logz_live - np.log(settings.termination_fraction) > logz_dead\<close>.
\<close>

definition loop_test :: "settings \<Rightarrow> std_state \<Rightarrow> bool" where
  "loop_test st s =
     (case logz_dead s of
        None \<Rightarrow> True
      | Some d \<Rightarrow> logz_live s - ln (termination_fraction st) > d)"

text \<open>
  The loop body:
  \<^verbatim>\<open>
          ind = np.where(live_points[:, 0] == live_points[:, 0].min())[0][0]
          dead_points_list.append(copy.deepcopy(live_points[ind, :]))
          logx_i += -1.0 / nlive_const
          logz_dead = scipy.misc.logsumexp((logz_dead, live_points[ind, 0] +
                                            logtrapz + logx_i))
          live_points[ind, 2] += np.log(np.random.random())
          live_points[ind, 1] = settings.r_given_logx(live_points[ind, 2])
          live_points[ind, 0] = settings.logl_given_r(live_points[ind, 1])
          logz_live = (scipy.misc.logsumexp(live_points[:, 0]) + logx_i -
                       np.log(nlive_const))
  \<close>
\<close>

definition first_min_index :: "live_point list \<Rightarrow> nat" where
  "first_min_index live =
     hd (np_where (\<lambda>p. lp_logl p = Min (set (map lp_logl live))) live)"

definition replace_point :: "settings \<Rightarrow> live_point \<Rightarrow> real \<Rightarrow> live_point" where
  "replace_point st p logx_new =
     p \<lparr> lp_logx := logx_new,
         lp_r := r_given_logx st logx_new,
         lp_logl := logl_given_r st (r_given_logx st logx_new) \<rparr>"

definition standard_step :: "settings \<Rightarrow> rng \<Rightarrow> nat \<Rightarrow> real \<Rightarrow> std_state \<Rightarrow> std_state" where
  "standard_step st rng nlive logtrapz s =
     (let ind = first_min_index (live_points s);
          dying = live_points s ! ind;
          lxi = logx_i s + (- 1 / real nlive);
          live = (live_points s)[ind := replace_point st dying (lp_logx dying + rng (rng_pos s))]
      in \<lparr> live_points = live,
           logx_i = lxi,
           logz_dead = Some (logsumexp_pair (logz_dead s) (lp_logl dying + logtrapz + lxi)),
           logz_live = logsumexp (map lp_logl live) + lxi - ln (real nlive),
           dead_points_list = dead_points_list s @ [dying],
           rng_pos = Suc (rng_pos s) \<rparr>)"

partial_function (option) standard_loop ::
  "settings \<Rightarrow> rng \<Rightarrow> nat \<Rightarrow> real \<Rightarrow> std_state \<Rightarrow> std_state option" where
  "standard_loop st rng nlive logtrapz s =
     (if loop_test st s then standard_loop st rng nlive logtrapz (standard_step st rng nlive logtrapz s)
      else Some s)"

text \<open>
  The live points at the start: \<open>logx = log(U)\<close> drawn for each, thread labels
  \<open>1\<close> to \<open>nlive_const\<close>.
\<close>

definition initial_live_points :: "settings \<Rightarrow> rng \<Rightarrow> nat \<Rightarrow> nat \<Rightarrow> live_point list" where
  "initial_live_points st rng nlive p =
     map (\<lambda>i. \<lparr> lp_logl = logl_given_r st (r_given_logx st (rng (p + i))),
                lp_r = r_given_logx st (rng (p + i)),
                lp_logx = rng (p + i),
                lp_label = real i + 1 \<rparr>)
         [0..<nlive]"

definition initial_state :: "settings \<Rightarrow> rng \<Rightarrow> nat \<Rightarrow> nat \<Rightarrow> std_state" where
  "initial_state st rng nlive p =
     (let live = initial_live_points st rng nlive p
      in \<lparr> live_points = live,
           logx_i = 0,
           logz_dead = None,
           logz_live = logsumexp (map lp_logl live) + 0 - ln (real nlive),
           dead_points_list = [],
           rng_pos = p + nlive \<rparr>)"

text \<open>\<^verbatim>\<open>t = np.exp(-1.0 / nlive_const); logtrapz = np.log(0.5 * ((t ** -1) - t))\<close>\<close>

definition logtrapz_of :: "nat \<Rightarrow> real" where
  "logtrapz_of nlive =
     (let t = exp (- 1 / real nlive) in ln (0.5 * (1 / t - t)))"

text \<open>
  The array of live-point counts:
  \<^verbatim>\<open>
      run['nlive_array'] = np.zeros(run['logl'].shape[0]) + nlive_const
      for i in range(1, nlive_const):
          run['nlive_array'][-i] = i
  \<close>
  An assignment \<^verbatim>\<open>a[-i] = v\<close> with \<open>i \<ge> 1\<close> writes the \<open>i\<close>-th entry from the
  end and raises \<open>IndexError\<close> when the array has fewer than \<open>i\<close> entries.
\<close>

definition set_from_end :: "real list \<Rightarrow> nat \<Rightarrow> real \<Rightarrow> error + real list" where
  "set_from_end a i v =
     (if 1 \<le> i \<and> i \<le> length a then Inr (a[length a - i := v]) else Inl IndexError)"

fun fill_tail :: "nat list \<Rightarrow> real list \<Rightarrow> error + real list" where
  "fill_tail [] a = Inr a"
| "fill_tail (i # is) a =
     (case set_from_end a i (real i) of
        Inl e \<Rightarrow> Inl e
      | Inr a' \<Rightarrow> fill_tail is a')"

definition make_nlive_array :: "nat \<Rightarrow> nat \<Rightarrow> error + real list" where
  "make_nlive_array n nlive = fill_tail [1..<nlive] (replicate n (real nlive))"

text \<open>
  After the loop:
  \<^verbatim>\<open>
      points = np.array(dead_points_list)
      points = np.vstack((points, live_points[np.argsort(live_points[:, 0])]))
      run = {'settings': ..., 'logl': points[:, 0], 'r': points[:, 1],
             'logx': points[:, 2], 'thread_labels': points[:, 3]}
      run['theta'] = mf.sample_nsphere_shells(run['r'], settings.n_dim,
                                              settings.dims_to_sample)
      ... nlive_array ...
      run['thread_min_max'] = np.zeros((nlive_const, 2))
      run['thread_min_max'][:, 0] = np.nan
      run['thread_min_max'][:, 1] = live_points[:, 0]
      return run
  \<close>
  With no dead point, \<^verbatim>\<open>np.array([])\<close> has no columns and \<^verbatim>\<open>np.vstack\<close>
  raises \<open>ValueError\<close>.
\<close>

definition finish_run :: "settings \<Rightarrow> library \<Rightarrow> nat \<Rightarrow> std_state \<Rightarrow> error + run" where
  "finish_run st lib nlive s =
     (if dead_points_list s = [] then Inl ValueError
      else
        let live = live_points s;
            points = dead_points_list s
                       @ map (\<lambda>i. live ! i) (argsort lib (map lp_logl live))
        in case make_nlive_array (length points) nlive of
             Inl e \<Rightarrow> Inl e
           | Inr nla \<Rightarrow>
               Inr \<lparr> run_logl = map lp_logl points,
                     run_r = map lp_r points,
                     run_logx = map lp_logx points,
                     run_thread_labels = map lp_label points,
                     run_theta = sample_nsphere_shells lib (map lp_r points)
                                   (n_dim st) (dims_to_sample st),
                     run_nlive_array = nla,
                     run_thread_min_max = map (\<lambda>p. (None, lp_logl p)) live \<rparr>)"

text \<open>
  \<^verbatim>\<open>def generate_standard_run(settings, is_dynamic_initial_run=False)\<close>. With no
  live point \<^verbatim>\<open>logsumexp\<close> of the empty array raises \<open>ValueError\<close>. The
  logarithm of a negative \<open>termination_fraction\<close> is \<open>nan\<close>: the loop test is
  false, no point dies, and \<^verbatim>\<open>np.vstack\<close> raises. The logarithm of zero is
  \<open>-inf\<close>: the loop test stays true and the loop does not end.
\<close>

definition generate_standard_run ::
  "settings \<Rightarrow> library \<Rightarrow> rng \<Rightarrow> bool \<Rightarrow> nat \<Rightarrow> (error + run \<times> nat) option" where
  "generate_standard_run st lib rng is_dynamic_initial_run p =
     (let nlive = (if is_dynamic_initial_run then ninit st else nlive_const st) in
      if nlive = 0 then Some (Inl ValueError)
      else if termination_fraction st < 0 then Some (Inl ValueError)
      else if termination_fraction st = 0 then None
      else
        case standard_loop st rng nlive (logtrapz_of nlive) (initial_state st rng nlive p) of
          None \<Rightarrow> None
        | Some s \<Rightarrow>
            (case finish_run st lib nlive s of
               Inl e \<Rightarrow> Some (Inl e)
             | Inr rn \<Rightarrow> Some (Inr (rn, rng_pos s))))"

subsection \<open>The earlier version of the run\<close>

text \<open>
  \<^verbatim>\<open>npns/nested_sampling.py\<close> has an earlier \<open>generate_standard_run\<close>. Its live
  points have the three columns \<^verbatim>\<open>[logl, r, logx]\<close> and the dead points are kept
  per thread. It starts with
  \<^verbatim>\<open>
      logx_i = 0.0
      logz_dead = -np.inf
      logz_live = mf.log_sum_given_logs(live[:, 0]) + logx_i
  \<close>
  and its loop tests the same condition and ends its body with
  \<^verbatim>\<open>
          logz_live = mf.log_sum_given_logs(live[:, 0]) + logx_i - np.log(nlive)
  \<close>
  \<^verbatim>\<open>mf.log_sum_given_logs\<close> is the logarithm of the sum of the exponentials, the
  math kernel's \<open>log_sum_exp\<close>. The thread labels are the positions in \<open>live\<close>;
  the model keeps them in the fourth column and lists the dead points in the order
  of their deaths.
\<close>

definition npns_initial_state :: "settings \<Rightarrow> rng \<Rightarrow> nat \<Rightarrow> nat \<Rightarrow> std_state" where
  "npns_initial_state st rng nlive p =
     (let live = initial_live_points st rng nlive p
      in \<lparr> live_points = live,
           logx_i = 0,
           logz_dead = None,
           logz_live = logsumexp (map lp_logl live) + 0,
           dead_points_list = [],
           rng_pos = p + nlive \<rparr>)"

text \<open>
  \<^verbatim>\<open>
          n_calls = au.get_n_calls(threads)
          nlive_array = np.zeros(n_calls) + nlive
          for i in range(1, nlive + 1):
              nlive_array[-i] = i
  \<close>
\<close>

definition npns_make_nlive_array :: "nat \<Rightarrow> nat \<Rightarrow> error + real list" where
  "npns_make_nlive_array n_calls nlive =
     fill_tail [1..<nlive + 1] (replicate n_calls (real nlive))"

text \<open>
  After its loop the earlier version evaluates \<^verbatim>\<open>threads[:, 2]\<close> for each
  thread, where \<open>threads\<close> is a Python list: this raises \<open>TypeError\<close>, so with
  one live point or more the function does not return a run. With no live point the
  division \<^verbatim>\<open>-1.0 / nlive\<close> raises.
\<close>

definition npns_generate_standard_run ::
  "settings \<Rightarrow> rng \<Rightarrow> nat \<Rightarrow> nat \<Rightarrow> (error + real list \<times> nat) option" where
  "npns_generate_standard_run st rng nlive p =
     (if nlive = 0 then Some (Inl ZeroDivisionError)
      else if termination_fraction st < 0 then Some (Inl TypeError)
      else if termination_fraction st = 0 then None
      else
        case standard_loop st rng nlive (logtrapz_of nlive) (npns_initial_state st rng nlive p) of
          None \<Rightarrow> None
        | Some s \<Rightarrow> Some (Inl TypeError))"

text \<open>
  The states at which a loop's condition is tested, from the state \<open>s0\<close> before the
  first test: the loop continues from a tested state where the condition holds.
\<close>

inductive tested :: "('s \<Rightarrow> bool) \<Rightarrow> ('s \<Rightarrow> 's) \<Rightarrow> 's \<Rightarrow> 's \<Rightarrow> bool"
  for c :: "'s \<Rightarrow> bool" and f :: "'s \<Rightarrow> 's" and s0 :: 's where
  tested_first: "tested c f s0 s0"
| tested_next: "tested c f s0 s \<Longrightarrow> c s \<Longrightarrow> tested c f s0 (f s)"

section \<open>Dynamic nested sampling run\<close>

text \<open>
  \<^verbatim>\<open>
  def p_importance(theta, w, tuned_dynamic_p=False, tuning_type='theta1'):
      if tuned_dynamic_p is False:
          return w / w.max()
      else:
          assert tuning_type == 'theta1', 'so far only set up for theta1'
          if tuning_type == 'theta1':
              f = theta[:, 0]
          fabs = np.absolute(f - (np.sum(f * w) / np.sum(w)))
          importance = fabs * w
          return importance / importance.max()
  \<close>
  The callers leave \<open>tuning_type\<close> at its default. Arrays combined elementwise
  have equal lengths, or the operation raises \<open>ValueError\<close>.
\<close>

definition p_importance :: "real list list \<Rightarrow> real list \<Rightarrow> bool \<Rightarrow> error + real list" where
  "p_importance theta w tuned =
     (if \<not> tuned then div_by_max w
      else if \<exists>t \<in> set theta. t = [] then Inl IndexError
      else
        let f = map hd theta in
        if length f \<noteq> length w then Inl ValueError
        else if sum_list w = 0 then Inl NonFinite
        else
          let mean = sum_list (map (\<lambda>(fi, wi). fi * wi) (zip f w)) / sum_list w;
              fabs = map (\<lambda>fi. \<bar>fi - mean\<bar>) f
          in div_by_max (map (\<lambda>(a, wi). a * wi) (zip fabs w)))"

text \<open>
  \<^verbatim>\<open>
  def point_importance(samples, thread_min_max, settings, simulate=False):
      run_dict = au.dict_given_samples_array(samples, thread_min_max)
      logw = au.get_logw(run_dict['logl'], run_dict['nlive_array'],
                         simulate=simulate)
      w_relative = np.exp(logw - logw.max())
      if settings.dynamic_goal == 0:
          return z_importance(w_relative, run_dict['nlive_array'])
      elif settings.dynamic_goal == 1:
          return p_importance(run_dict['theta'], w_relative,
                              tuned_dynamic_p=settings.tuned_dynamic_p)
      else:
          imp_z = z_importance(w_relative, run_dict['nlive_array'])
          imp_p = p_importance(run_dict['theta'], w_relative,
                               tuned_dynamic_p=settings.tuned_dynamic_p)
          importance = (imp_z / np.sum(imp_z)) * (1.0 - settings.dynamic_goal)
          importance += (imp_p / np.sum(imp_p)) * settings.dynamic_goal
          return importance / importance.max()
  \<close>
\<close>

definition w_relative_of :: "real list \<Rightarrow> error + real list" where
  "w_relative_of logw =
     (case np_max logw of
        Inl e \<Rightarrow> Inl e
      | Inr m \<Rightarrow> Inr (map (\<lambda>l. exp (l - m)) logw))"

definition blend_importance :: "real \<Rightarrow> real list \<Rightarrow> real list \<Rightarrow> error + real list" where
  "blend_importance goal imp_z imp_p =
     (if sum_list imp_z = 0 \<or> sum_list imp_p = 0 then Inl NonFinite
      else if length imp_z \<noteq> length imp_p then Inl ValueError
      else div_by_max
             (map (\<lambda>(z, p). z / sum_list imp_z * (1 - goal) + p / sum_list imp_p * goal)
                (zip imp_z imp_p)))"

definition point_importance ::
  "sample list \<Rightarrow> (real option \<times> real) list \<Rightarrow> settings \<Rightarrow> library \<Rightarrow> error + real list" where
  "point_importance samples tmm st lib =
     (let run_dict = dict_given_samples_array lib samples tmm;
          logw = get_logw lib (run_logl run_dict) (run_nlive_array run_dict)
      in case w_relative_of logw of
           Inl e \<Rightarrow> Inl e
         | Inr w_relative \<Rightarrow>
             if dynamic_goal st = Some 0
             then z_importance w_relative (run_nlive_array run_dict) False
             else if dynamic_goal st = Some 1
             then p_importance (run_theta run_dict) w_relative (tuned_dynamic_p st)
             else
               (case z_importance w_relative (run_nlive_array run_dict) False of
                  Inl e \<Rightarrow> Inl e
                | Inr imp_z \<Rightarrow>
                    (case p_importance (run_theta run_dict) w_relative (tuned_dynamic_p st) of
                       Inl e \<Rightarrow> Inl e
                     | Inr imp_p \<Rightarrow>
                         (case dynamic_goal st of
                            None \<Rightarrow> Inl TypeError
                          | Some goal \<Rightarrow> blend_importance goal imp_z imp_p))))"

text \<open>The variables of the insertion loop, and the number of random draws made.\<close>

record dyn_state =
  ds_samples :: "sample list"
  ds_thread_min_max :: "(real option \<times> real) list"
  ds_n_samples :: nat
  ds_pos :: nat

text \<open>
  The record of a thread's birth:
  \<^verbatim>\<open>
              if not np.isnan(logl_min_max[0]):
                  start_ind = np.where(samples[:, 0] == logl_min_max[0])[0]
                  assert start_ind.shape == (1,)
                  samples[start_ind, 4] += 1
  \<close>
\<close>

definition mark_birth :: "sample list \<Rightarrow> real option \<Rightarrow> error + sample list" where
  "mark_birth samples logl_min =
     (case logl_min of
        None \<Rightarrow> Inr samples
      | Some l \<Rightarrow>
          let start_ind = np_where (\<lambda>s. s_logl s = l) samples in
          if length start_ind \<noteq> 1 then Inl AssertionError
          else Inr (samples[hd start_ind :=
                      (samples ! hd start_ind)
                        \<lparr> s_dnlive := s_dnlive (samples ! hd start_ind) + 1 \<rparr>]))"

text \<open>
  \<^verbatim>\<open>np.vstack((samples, thread))\<close> raises \<open>ValueError\<close> when the blocks differ
  in their number of columns, which here is five and the number of parameters. It
  does so as well when \<open>thread\<close> is \<open>None\<close>, a case of the batch loop below.
\<close>

definition vstack :: "sample list \<Rightarrow> sample list \<Rightarrow> error + sample list" where
  "vstack samples rows =
     (if \<exists>a \<in> set samples. \<exists>b \<in> set rows. length (s_theta a) \<noteq> length (s_theta b)
      then Inl ValueError
      else Inr (samples @ rows))"

text \<open>
  The body of \<^verbatim>\<open>for _ in range(settings.nbatch)\<close>, run \<open>k\<close> times:
  \<^verbatim>\<open>
              thread_label = thread_min_max.shape[0] + 1
              thread = generate_single_thread(settings, logx_min_max[1], thread_label,
                                              logx_start=logx_min_max[0],
                                              keep_final_point=True)
              ... the record of the birth ...
              samples = np.vstack((samples, thread))
              lmm = np.asarray([logl_min_max[0], thread[-1, 0]])
              thread_min_max = np.vstack((thread_min_max, lmm))
  \<close>
\<close>

fun batch_loop ::
  "nat \<Rightarrow> settings \<Rightarrow> library \<Rightarrow> rng \<Rightarrow> real option \<times> real \<Rightarrow> real \<times> real \<Rightarrow> dyn_state
     \<Rightarrow> (error + dyn_state) option" where
  "batch_loop 0 st lib rng logl_min_max logx_min_max s = Some (Inr s)"
| "batch_loop (Suc k) st lib rng logl_min_max logx_min_max s =
     (let thread_label = real (length (ds_thread_min_max s) + 1) in
      case generate_single_thread st lib rng (Some (snd logx_min_max)) thread_label
             (fst logx_min_max) True (ds_pos s) of
        None \<Rightarrow> None
      | Some (Inl e) \<Rightarrow> Some (Inl e)
      | Some (Inr (thread, p)) \<Rightarrow>
          (case mark_birth (ds_samples s) (fst logl_min_max) of
             Inl e \<Rightarrow> Some (Inl e)
           | Inr marked \<Rightarrow>
               (case thread of
                  None \<Rightarrow> Some (Inl ValueError)
                | Some rows \<Rightarrow>
                    (case vstack marked rows of
                       Inl e \<Rightarrow> Some (Inl e)
                     | Inr stacked \<Rightarrow>
                         batch_loop k st lib rng logl_min_max logx_min_max
                           (s \<lparr> ds_samples := stacked,
                                ds_thread_min_max := ds_thread_min_max s
                                  @ [(fst logl_min_max, s_logl (last rows))],
                                ds_pos := p \<rparr>)))))"

text \<open>
  The sort that ends an iteration:
  \<^verbatim>\<open>samples = samples[np.argsort(samples[:, 0])]\<close>.
\<close>

definition sort_by_logl :: "library \<Rightarrow> sample list \<Rightarrow> sample list" where
  "sort_by_logl lib samples = map (\<lambda>i. samples ! i) (argsort lib (map s_logl samples))"

text \<open>
  One iteration of \<^verbatim>\<open>while n_samples < n_samples_max\<close>:
  \<^verbatim>\<open>
          importance = point_importance(samples, thread_min_max, settings)
          logl_min_max, logx_min_max = min_max_importance(importance, samples, settings)
          for _ in range(settings.nbatch):
              ...
          samples = samples[np.argsort(samples[:, 0])]
          n_samples = samples.shape[0]
  \<close>
\<close>

definition dynamic_iteration ::
  "settings \<Rightarrow> library \<Rightarrow> rng \<Rightarrow> dyn_state \<Rightarrow> (error + dyn_state) option" where
  "dynamic_iteration st lib rng s =
     (case point_importance (ds_samples s) (ds_thread_min_max s) st lib of
        Inl e \<Rightarrow> Some (Inl e)
      | Inr importance \<Rightarrow>
          (case min_max_importance importance (ds_samples s) st of
             Inl e \<Rightarrow> Some (Inl e)
           | Inr (logl_min_max, logx_min_max) \<Rightarrow>
               (case batch_loop (nat (nbatch st)) st lib rng logl_min_max logx_min_max s of
                  None \<Rightarrow> None
                | Some (Inl e) \<Rightarrow> Some (Inl e)
                | Some (Inr s') \<Rightarrow>
                    Some (Inr (s' \<lparr> ds_samples := sort_by_logl lib (ds_samples s'),
                                    ds_n_samples := length (sort_by_logl lib (ds_samples s')) \<rparr>)))))"

partial_function (option) dynamic_loop ::
  "settings \<Rightarrow> library \<Rightarrow> rng \<Rightarrow> real \<Rightarrow> dyn_state \<Rightarrow> (error + dyn_state) option" where
  "dynamic_loop st lib rng n_max s =
     (if real (ds_n_samples s) < n_max
      then (case dynamic_iteration st lib rng s of
              None \<Rightarrow> None
            | Some (Inl e) \<Rightarrow> Some (Inl e)
            | Some (Inr s') \<Rightarrow> dynamic_loop st lib rng n_max s')
      else Some (Inr s))"

text \<open>
  \<^verbatim>\<open>
  def generate_dynamic_run(settings):
      assert 1 >= settings.dynamic_goal >= 0, ...
      np.random.seed()
      standard_run = generate_standard_run(settings, is_dynamic_initial_run=True)
      samples = au.samples_array_given_run(standard_run)
      thread_min_max = standard_run['thread_min_max']
      n_samples = samples.shape[0]
      if settings.n_samples_max is None:
          n_samples_max = n_samples * (settings.nlive_const / settings.ninit)
      else:
          n_samples_max = settings.n_samples_max
      while n_samples < n_samples_max:
          ...
      run = au.dict_given_samples_array(samples, thread_min_max)
      run['settings'] = settings.get_settings_dict()
      return run
  \<close>
\<close>

definition generate_dynamic_run ::
  "settings \<Rightarrow> library \<Rightarrow> rng \<Rightarrow> nat \<Rightarrow> (error + run \<times> nat) option" where
  "generate_dynamic_run st lib rng p =
     (case dynamic_goal st of
        None \<Rightarrow> Some (Inl TypeError)
      | Some goal \<Rightarrow>
          if \<not> (1 \<ge> goal \<and> goal \<ge> 0) then Some (Inl AssertionError)
          else
            (case generate_standard_run st lib rng True p of
               None \<Rightarrow> None
             | Some (Inl e) \<Rightarrow> Some (Inl e)
             | Some (Inr (standard_run, p')) \<Rightarrow>
                 (let samples = samples_array_given_run lib standard_run;
                      n_max = (case n_samples_max st of
                                 None \<Rightarrow> real (length samples)
                                            * (real (nlive_const st) / real (ninit st))
                               | Some m \<Rightarrow> m)
                  in case dynamic_loop st lib rng n_max
                            \<lparr> ds_samples = samples,
                              ds_thread_min_max = run_thread_min_max standard_run,
                              ds_n_samples = length samples,
                              ds_pos = p' \<rparr> of
                       None \<Rightarrow> None
                     | Some (Inl e) \<Rightarrow> Some (Inl e)
                     | Some (Inr s) \<Rightarrow>
                         Some (Inr (dict_given_samples_array lib (ds_samples s)
                                      (ds_thread_min_max s), ds_pos s)))))"

text \<open>
  \<^verbatim>\<open>
  def generate_ns_run(settings):
      if settings.dynamic_goal is None:
          return generate_standard_run(settings)
      else:
          return generate_dynamic_run(settings)
  \<close>
\<close>

definition generate_ns_run ::
  "settings \<Rightarrow> library \<Rightarrow> rng \<Rightarrow> nat \<Rightarrow> (error + run \<times> nat) option" where
  "generate_ns_run st lib rng p =
     (if dynamic_goal st = None then generate_standard_run st lib rng False p
      else generate_dynamic_run st lib rng p)"

text \<open>
  The threads that the \<open>k\<close> passes of the batch loop generate, from the insertion
  interval, the number of threads so far and the number of draws made: each call of
  the generator starts where the one before stopped.
\<close>

fun batch_threads ::
  "nat \<Rightarrow> settings \<Rightarrow> library \<Rightarrow> rng \<Rightarrow> real \<times> real \<Rightarrow> nat \<Rightarrow> nat \<Rightarrow> sample list list" where
  "batch_threads 0 st lib rng logx_min_max n_threads p = []"
| "batch_threads (Suc k) st lib rng logx_min_max n_threads p =
     (case generate_single_thread st lib rng (Some (snd logx_min_max)) (real (n_threads + 1))
             (fst logx_min_max) True p of
        Some (Inr (Some rows, p')) \<Rightarrow>
          rows # batch_threads k st lib rng logx_min_max (n_threads + 1) p'
      | _ \<Rightarrow> [])"

text \<open>The threads that the iteration from the state \<open>s\<close> generates.\<close>

definition iteration_threads ::
  "settings \<Rightarrow> library \<Rightarrow> rng \<Rightarrow> dyn_state \<Rightarrow> sample list list" where
  "iteration_threads st lib rng s =
     (case point_importance (ds_samples s) (ds_thread_min_max s) st lib of
        Inl e \<Rightarrow> []
      | Inr importance \<Rightarrow>
          (case min_max_importance importance (ds_samples s) st of
             Inl e \<Rightarrow> []
           | Inr (logl_min_max, logx_min_max) \<Rightarrow>
               batch_threads (nat (nbatch st)) st lib rng logx_min_max
                 (length (ds_thread_min_max s)) (ds_pos s)))"

text \<open>
  The states at the head of the insertion loop, from the state \<open>s0\<close> before the
  first test: the loop goes on from a state with fewer than \<open>n_samples_max\<close>
  samples, to the state that the iteration returns.
\<close>

inductive loop_head ::
  "settings \<Rightarrow> library \<Rightarrow> rng \<Rightarrow> real \<Rightarrow> dyn_state \<Rightarrow> dyn_state \<Rightarrow> bool"
  for st :: settings and lib :: library and rng :: rng and n_max :: real and s0 :: dyn_state
  where
  loop_head_first: "loop_head st lib rng n_max s0 s0"
| loop_head_next:
    "loop_head st lib rng n_max s0 s \<Longrightarrow> real (ds_n_samples s) < n_max
       \<Longrightarrow> dynamic_iteration st lib rng s = Some (Inr s')
       \<Longrightarrow> loop_head st lib rng n_max s0 s'"

text \<open>A state for examples: two samples of one thread, no draw made yet.\<close>

definition example_state :: dyn_state where
  "example_state =
     \<lparr> ds_samples = [row 1 (- 1), row 2 (- 2)],
       ds_thread_min_max = [(None, 2)],
       ds_n_samples = 2,
       ds_pos = 0 \<rparr>"

text \<open>
  A row of the thread with label \<open>2\<close> on the example problem, where
  \<open>logl = logx\<close>: the row at \<open>logx = x\<close> with the change \<open>d\<close> in live points.
\<close>

definition thread_row :: "real \<Rightarrow> real \<Rightarrow> sample" where
  "thread_row x d =
     \<lparr> s_logl = x, s_r = - x, s_logx = x, s_label = 2, s_dnlive = d, s_theta = [- x] \<rparr>"

section \<open>Estimators\<close>

text \<open>
  \<^verbatim>\<open>np.interp(x, xp, fp)\<close> for a scalar \<open>x\<close> and an increasing \<open>xp\<close>: below
  \<open>xp[0]\<close> the value is \<open>fp[0]\<close> and above \<open>xp[-1]\<close> it is \<open>fp[-1]\<close>;
  otherwise, with \<open>j\<close> the last index such that \<open>xp[j] \<le> x\<close>, it is \<open>fp[j]\<close>
  when \<open>j\<close> is the last index or \<open>xp[j] = x\<close>, and else
  \<open>(fp[j+1] - fp[j]) / (xp[j+1] - xp[j]) * (x - xp[j]) + fp[j]\<close>. An empty \<open>xp\<close>,
  or an \<open>fp\<close> of another length, raises \<open>ValueError\<close>.
\<close>

fun interp_from :: "real \<Rightarrow> real list \<Rightarrow> real list \<Rightarrow> real" where
  "interp_from x (a # b # xp) (fa # fb # fp) =
     (if x < b then (if a = x then fa else (fb - fa) / (b - a) * (x - a) + fa)
      else interp_from x (b # xp) (fb # fp))"
| "interp_from x xp (fa # fp) = fa"
| "interp_from x xp [] = 0"

definition np_interp :: "real \<Rightarrow> real list \<Rightarrow> real list \<Rightarrow> error + real" where
  "np_interp x xp fp =
     (if xp = [] \<or> length fp \<noteq> length xp then Inl ValueError
      else if x < hd xp then Inr (hd fp)
      else if x > last xp then Inr (last fp)
      else Inr (interp_from x xp fp))"

text \<open>
  The credible-interval computation that \<open>rCredEstimator\<close> and
  \<open>paramCredEstimator\<close> share, on the weights \<open>w\<close> and the values \<open>v\<close>:
  \<^verbatim>\<open>
          wr = wr[np.argsort(wr[:, 1], axis=0)]
          cdf = np.cumsum(wr[:, 0]) - (wr[0, 0] / 2)
          cdf /= np.sum(wr[:, 0])
          return np.interp(self.probability, cdf, wr[:, 1])
  \<close>
\<close>

definition cred_interp :: "library \<Rightarrow> real \<Rightarrow> real list \<Rightarrow> real list \<Rightarrow> error + real" where
  "cred_interp lib probability w v =
     (let q = argsort lib v;
          ws = map (\<lambda>i. w ! i) q;
          vs = map (\<lambda>i. v ! i) q
      in if ws = [] then Inl IndexError
         else if sum_list ws = 0 then Inl NonFinite
         else np_interp probability
                (map (\<lambda>c. (c - hd ws / 2) / sum_list ws) (cumsum ws)) vs)"

text \<open>
  \<^verbatim>\<open>theta[:, k]\<close>: column \<open>k\<close> of the two-dimensional array whose rows are
  \<open>theta\<close>; a negative \<open>k\<close> counts from the last column, and a \<open>k\<close> outside
  the columns raises \<open>IndexError\<close>.
\<close>

definition np_column :: "real list list \<Rightarrow> int \<Rightarrow> error + real list" where
  "np_column theta k =
     (if \<forall>t \<in> set theta. - int (length t) \<le> k \<and> k < int (length t)
      then Inr (map (\<lambda>t. t ! nat (if k < 0 then int (length t) + k else k)) theta)
      else Inl IndexError)"

text \<open>
  The estimator classes. The constructors of the two credible-interval classes
  assert \<^verbatim>\<open>1 > probability > 0\<close>; \<open>param_ind\<close> counts the parameters from one.
\<close>

datatype estimator =
    LogzEstimator
  | ZEstimator
  | NSamplesEstimator
  | RMeanEstimator
  | RCredEstimator real
  | ParamMeanEstimator int
  | ParamCredEstimator real int
  | ParamSquaredMeanEstimator int

definition rCredEstimator :: "real \<Rightarrow> error + estimator" where
  "rCredEstimator probability =
     (if 1 > probability \<and> probability > 0 then Inr (RCredEstimator probability)
      else Inl AssertionError)"

definition paramCredEstimator :: "real \<Rightarrow> int \<Rightarrow> error + estimator" where
  "paramCredEstimator probability param_ind =
     (if 1 > probability \<and> probability > 0 then Inr (ParamCredEstimator probability param_ind)
      else Inl AssertionError)"

text \<open>
  \<^verbatim>\<open>estimator(self, logw, ns_run)\<close>. The weights are
  \<^verbatim>\<open>np.exp(logw - logw.max())\<close>. An elementwise product takes two arrays of one
  length, or stretches an array of one element to the other's length, and raises
  \<open>ValueError\<close> otherwise; an assignment to a column stretches only the array
  assigned.
\<close>

definition np_mul :: "real list \<Rightarrow> real list \<Rightarrow> error + real list" where
  "np_mul a b =
     (if length a = length b then Inr (map (\<lambda>(x, y). x * y) (zip a b))
      else if length b = 1 then Inr (map (\<lambda>x. x * hd b) a)
      else if length a = 1 then Inr (map (\<lambda>y. hd a * y) b)
      else Inl ValueError)"

definition weighted_mean :: "real list \<Rightarrow> real list \<Rightarrow> error + real" where
  "weighted_mean w f =
     (case np_mul w f of
        Inl e \<Rightarrow> Inl e
      | Inr terms \<Rightarrow>
          if sum_list w = 0 then Inl NonFinite
          else Inr (sum_list terms / sum_list w))"

fun estimator_value :: "library \<Rightarrow> estimator \<Rightarrow> real list \<Rightarrow> run \<Rightarrow> error + real" where
  "estimator_value lib LogzEstimator logw rn =
     (if logw = [] then Inl ValueError else Inr (logsumexp logw))"
| "estimator_value lib ZEstimator logw rn =
     (if logw = [] then Inl ValueError else Inr (exp (logsumexp logw)))"
| "estimator_value lib NSamplesEstimator logw rn = Inr (real (length logw))"
| "estimator_value lib RMeanEstimator logw rn =
     (case w_relative_of logw of
        Inl e \<Rightarrow> Inl e
      | Inr w \<Rightarrow> weighted_mean w (run_r rn))"
| "estimator_value lib (RCredEstimator probability) logw rn =
     (case w_relative_of logw of
        Inl e \<Rightarrow> Inl e
      | Inr w \<Rightarrow>
          (case bcast (length logw) (run_r rn) of
             Inl e \<Rightarrow> Inl e
           | Inr v \<Rightarrow> cred_interp lib probability w v))"
| "estimator_value lib (ParamMeanEstimator param_ind) logw rn =
     (case w_relative_of logw of
        Inl e \<Rightarrow> Inl e
      | Inr w \<Rightarrow>
          (case np_column (run_theta rn) (param_ind - 1) of
             Inl e \<Rightarrow> Inl e
           | Inr f \<Rightarrow> weighted_mean w f))"
| "estimator_value lib (ParamCredEstimator probability param_ind) logw rn =
     (case w_relative_of logw of
        Inl e \<Rightarrow> Inl e
      | Inr w \<Rightarrow>
          (case np_column (run_theta rn) (param_ind - 1) of
             Inl e \<Rightarrow> Inl e
           | Inr f \<Rightarrow>
               (case bcast (length logw) f of
                  Inl e \<Rightarrow> Inl e
                | Inr v \<Rightarrow> cred_interp lib probability w v)))"
| "estimator_value lib (ParamSquaredMeanEstimator param_ind) logw rn =
     (case w_relative_of logw of
        Inl e \<Rightarrow> Inl e
      | Inr w \<Rightarrow>
          if sum_list w = 0 then Inl NonFinite
          else
            (case np_column (run_theta rn) (param_ind - 1) of
               Inl e \<Rightarrow> Inl e
             | Inr f \<Rightarrow>
                 (case np_mul (map (\<lambda>x. x / sum_list w) w) (map (\<lambda>x. x ^ 2) f) of
                    Inl e \<Rightarrow> Inl e
                  | Inr terms \<Rightarrow> Inr (sum_list terms))))"

text \<open>A run for examples, with the radii \<open>3, 1, 2\<close> and one parameter.\<close>

definition example_run :: run where
  "example_run =
     \<lparr> run_logl = [1, 2, 3], run_r = [3, 1, 2], run_logx = [- 1, - 2, - 3],
       run_thread_labels = [1, 1, 1], run_theta = [[3], [- 1], [2]],
       run_nlive_array = [1, 1, 1], run_thread_min_max = [(None, 3)] \<rparr>"

section \<open>Analytic reference values\<close>

text \<open>
  What the analytic values read of a settings object: the likelihood and the prior
  (each absent, or the name of its type with its scale attribute, absent or a
  number), \<open>n_dim\<close>, the functions \<open>r_given_logx\<close> and \<open>logl_given_logx\<close>, the result
  of \<^verbatim>\<open>settings.logz_analytic()\<close>, and that of
  \<^verbatim>\<open>mf.analytic_logx_terminate(settings)\<close>, of a module that is not part of these
  sources.
\<close>

record est_settings =
  likelihood :: "(string \<times> real option) option"
  prior :: "(string \<times> real option) option"
  es_n_dim :: int
  es_r_given_logx :: "real \<Rightarrow> real"
  es_logl_given_logx :: "real \<Rightarrow> real"
  logz_analytic :: "error + real"
  analytic_logx_terminate :: "error + real option"

text \<open>
  The library functions: \<^verbatim>\<open>scipy.special.erfinv\<close>, the value
  \<^verbatim>\<open>scipy.integrate.quad(f, a, b)[0]\<close> for an integrand \<open>f\<close> that may fail, and
  \<^verbatim>\<open>str\<close> of a float and of an integer.
\<close>

record pylib =
  erfinv :: "real \<Rightarrow> real"
  quad :: "(real \<Rightarrow> error + real) \<Rightarrow> real \<Rightarrow> real \<Rightarrow> error + real"
  str_float :: "real \<Rightarrow> string"
  str_int :: "int \<Rightarrow> string"

text \<open>The attribute \<open>name\<close> of an estimator.\<close>

fun name :: "pylib \<Rightarrow> estimator \<Rightarrow> string" where
  "name py LogzEstimator = ''logz''"
| "name py ZEstimator = ''z''"
| "name py NSamplesEstimator = ''n_samples''"
| "name py RMeanEstimator = ''r''"
| "name py (RCredEstimator probability) = ''rc_'' @ str_float py probability"
| "name py (ParamMeanEstimator param_ind) = ''theta'' @ str_int py param_ind"
| "name py (ParamCredEstimator probability param_ind) =
     (if probability = 1 / 2 then ''Median(theta'' @ str_int py param_ind @ '')''
      else ''theta'' @ str_int py param_ind @ ''c_'' @ str_float py probability)"
| "name py (ParamSquaredMeanEstimator param_ind) = ''theta'' @ str_int py param_ind @ ''squ''"

text \<open>
  \<^verbatim>\<open>
  def check_by_integrating(ftilde, settings):
      logx_terminate = mf.analytic_logx_terminate(settings)
      assert logx_terminate is not None, \
          'logx_terminate function not set up for current settings'
      result = scipy.integrate.quad(check_integrand, logx_terminate,
                                    0.0, args=(ftilde, settings))
      return result[0] / np.exp(settings.logz_analytic())

  def check_integrand(logx, ftilde, settings):
      return (np.exp(settings.logl_given_logx(logx) + logx)
              * ftilde(logx, settings))
  \<close>
\<close>

definition check_integrand :: "(real \<Rightarrow> error + real) \<Rightarrow> est_settings \<Rightarrow> real \<Rightarrow> error + real" where
  "check_integrand ftilde s logx =
     (case ftilde logx of
        Inl e \<Rightarrow> Inl e
      | Inr f \<Rightarrow> Inr (exp (es_logl_given_logx s logx + logx) * f))"

definition check_by_integrating ::
  "pylib \<Rightarrow> (real \<Rightarrow> error + real) \<Rightarrow> est_settings \<Rightarrow> error + real" where
  "check_by_integrating py ftilde s =
     (case analytic_logx_terminate s of
        Inl e \<Rightarrow> Inl e
      | Inr None \<Rightarrow> Inl AssertionError
      | Inr (Some logx_end) \<Rightarrow>
          (case quad py (check_integrand ftilde s) logx_end 0 of
             Inl e \<Rightarrow> Inl e
           | Inr result \<Rightarrow>
               (case logz_analytic s of
                  Inl e \<Rightarrow> Inl e
                | Inr logz \<Rightarrow> Inr (result / exp logz))))"

text \<open>
  \<^verbatim>\<open>est.analytical(settings)\<close>. The classes \<open>nSamplesEstimator\<close> and
  \<open>rCredEstimator\<close> have no such method, and the call raises \<open>AttributeError\<close>, as
  does reading an attribute that the settings, the likelihood or the prior lacks.
  For \<open>paramCredEstimator\<close>:
  \<^verbatim>\<open>
      def analytical(self, settings):
          if self.probability == 0.5:
              return 0
          else:
              assert type(settings.likelihood).__name__ == 'gaussian', \
                  "so far only set up for Gaussian likelihoods"
              assert type(settings.prior).__name__ in ['gaussian',
                                                       'gaussian_cached'], \
                  "so far only set up for Gaussian priors"
              sigma = ((settings.likelihood.likelihood_scale ** -2) +
                       (settings.prior.prior_scale ** -2)) ** -0.5
              z = scipy.special.erfinv((self.probability * 2) - 1) * np.sqrt(2)
              return z * sigma
  \<close>
\<close>

definition scale_pow_minus_2 :: "(string \<times> real option) \<Rightarrow> error + real" where
  "scale_pow_minus_2 obj =
     (case snd obj of
        None \<Rightarrow> Inl AttributeError
      | Some scale \<Rightarrow> if scale = 0 then Inl ZeroDivisionError else Inr (1 / scale ^ 2))"

definition param_cred_sigma :: "est_settings \<Rightarrow> error + real" where
  "param_cred_sigma s =
     (case likelihood s of
        None \<Rightarrow> Inl AttributeError
      | Some lik \<Rightarrow>
          if fst lik \<noteq> ''gaussian'' then Inl AssertionError
          else
            (case prior s of
               None \<Rightarrow> Inl AttributeError
             | Some pri \<Rightarrow>
                 if fst pri \<noteq> ''gaussian'' \<and> fst pri \<noteq> ''gaussian_cached''
                 then Inl AssertionError
                 else
                   (case scale_pow_minus_2 lik of
                      Inl e \<Rightarrow> Inl e
                    | Inr a \<Rightarrow>
                        (case scale_pow_minus_2 pri of
                           Inl e \<Rightarrow> Inl e
                         | Inr b \<Rightarrow> Inr (1 / sqrt (a + b))))))"

text \<open>
  \<^verbatim>\<open>paramSquaredMeanEstimator.ftilde\<close>:
  \<^verbatim>\<open>r = settings.r_given_logx(logx); return r ** 2 / settings.n_dim\<close>
\<close>

definition squared_ftilde :: "est_settings \<Rightarrow> real \<Rightarrow> error + real" where
  "squared_ftilde s logx =
     (if es_n_dim s = 0 then Inl NonFinite
      else Inr ((es_r_given_logx s logx) ^ 2 / real_of_int (es_n_dim s)))"

fun analytical :: "pylib \<Rightarrow> estimator \<Rightarrow> est_settings \<Rightarrow> error + real" where
  "analytical py LogzEstimator s = logz_analytic s"
| "analytical py ZEstimator s =
     (case logz_analytic s of Inl e \<Rightarrow> Inl e | Inr logz \<Rightarrow> Inr (exp logz))"
| "analytical py NSamplesEstimator s = Inl AttributeError"
| "analytical py RMeanEstimator s = Inr 0"
| "analytical py (RCredEstimator probability) s = Inl AttributeError"
| "analytical py (ParamMeanEstimator param_ind) s = Inr 0"
| "analytical py (ParamCredEstimator probability param_ind) s =
     (if probability = 1 / 2 then Inr 0
      else
        (case param_cred_sigma s of
           Inl e \<Rightarrow> Inl e
         | Inr sigma \<Rightarrow> Inr (erfinv py (probability * 2 - 1) * sqrt 2 * sigma)))"
| "analytical py (ParamSquaredMeanEstimator param_ind) s =
     check_by_integrating py (squared_ftilde s) s"

text \<open>
  \<^verbatim>\<open>
  def get_true_estimator_values(estimator_list, settings):
      output = {}
      ordered_cols = []
      for est in estimator_list:
          ordered_cols.append(est.name)
          try:
              output[est.name] = est.analytical(settings)
          except (AttributeError, AssertionError):
              output[est.name] = np.nan
      df = pd.DataFrame(output, index=['true values'])
      df = df[ordered_cols]  # needed to have columns correct order
      return df
  \<close>
  The dictionary \<open>output\<close> is a map from names to entries, an entry being a number
  or, as \<open>None\<close>, not-a-number. The data frame returned is the list of its columns,
  each a name with the entry of its one row.
\<close>

fun true_values_loop ::
  "pylib \<Rightarrow> est_settings \<Rightarrow> estimator list \<Rightarrow> (string \<rightharpoonup> real option)
     \<Rightarrow> error + (string \<rightharpoonup> real option)" where
  "true_values_loop py s [] output = Inr output"
| "true_values_loop py s (est # ests) output =
     (case analytical py est s of
        Inr v \<Rightarrow> true_values_loop py s ests (output(name py est \<mapsto> Some v))
      | Inl e \<Rightarrow>
          if e = AttributeError \<or> e = AssertionError
          then true_values_loop py s ests (output(name py est \<mapsto> None))
          else Inl e)"

definition get_true_estimator_values ::
  "pylib \<Rightarrow> estimator list \<Rightarrow> est_settings \<Rightarrow> error + (string \<times> real option) list" where
  "get_true_estimator_values py estimator_list s =
     (case true_values_loop py s estimator_list Map.empty of
        Inl e \<Rightarrow> Inl e
      | Inr output \<Rightarrow>
          (let ordered_cols = map (name py) estimator_list in
           case those (map output ordered_cols) of
             None \<Rightarrow> Inl KeyError
           | Some entries \<Rightarrow> Inr (zip ordered_cols entries)))"

text \<open>Settings with a Cauchy likelihood, and library functions, for examples.\<close>

definition example_est_settings :: est_settings where
  "example_est_settings =
     \<lparr> likelihood = Some (''cauchy'', Some 1), prior = Some (''uniform'', None),
       es_n_dim = 1, es_r_given_logx = (\<lambda>x. - x), es_logl_given_logx = (\<lambda>x. - x),
       logz_analytic = Inr 0, analytic_logx_terminate = Inr None \<rparr>"

definition example_pylib :: pylib where
  "example_pylib =
     \<lparr> erfinv = (\<lambda>x. x), quad = (\<lambda>f a b. Inr 0),
       str_float = (\<lambda>p. if p = 1 / 4 then ''0.25'' else ''0.5''),
       str_int = (\<lambda>k. if k = 1 then ''1'' else ''2'') \<rparr>"

chapter \<open>Properties\<close>

section \<open>Properties of the importance functions\<close>

lemma cumsum_from_nth:
  "i < length xs \<Longrightarrow> cumsum_from a xs ! i = a + sum_list (take (Suc i) xs)"
  by (induction xs arbitrary: a i) (auto simp: nth_Cons split: nat.splits)

lemma length_cumsum_from [simp]: "length (cumsum_from a xs) = length xs"
  by (induction xs arbitrary: a) auto

lemma length_cumsum [simp]: "length (cumsum xs) = length xs"
  by (simp add: cumsum_def)

lemma cumsum_eq_Nil [simp]: "cumsum xs = [] \<longleftrightarrow> xs = []"
  by (metis length_cumsum length_0_conv)

lemma cumsum_nth: "i < length xs \<Longrightarrow> cumsum xs ! i = sum_list (take (Suc i) xs)"
  by (simp add: cumsum_def cumsum_from_nth)

lemma cumsum_eq_map: "cumsum xs = map (\<lambda>i. sum_list (take (Suc i) xs)) [0..<length xs]"
  by (rule nth_equalityI) (auto simp: cumsum_nth)

lemma np_max_eq_Max: "xs \<noteq> [] \<Longrightarrow> np_max xs = Inr (Max (set xs))"
  by (cases xs) (simp_all add: Max.set_eq_fold[symmetric])

lemma sum_list_take_le:
  assumes "\<forall>x \<in> set w. (0::real) \<le> x"
  shows "sum_list (take k w) \<le> sum_list w"
proof -
  have "sum_list w = sum_list (take k w) + sum_list (drop k w)"
    by (metis append_take_drop_id sum_list_append)
  moreover have "0 \<le> sum_list (drop k w)"
    using assms by (intro sum_list_nonneg) (auto dest: in_set_dropD)
  ultimately show ?thesis by linarith
qed

lemma Max_cumsum:
  assumes "w \<noteq> []" "\<forall>x \<in> set w. (0::real) \<le> x"
  shows "Max (set (cumsum w)) = sum_list w"
proof (rule Max_eqI)
  show "finite (set (cumsum w))" by simp
  show "y \<le> sum_list w" if "y \<in> set (cumsum w)" for y
    using that assms(2) by (auto simp: cumsum_eq_map sum_list_take_le)
  have "cumsum w ! (length w - 1) = sum_list w"
    using assms(1) by (simp add: cumsum_nth)
  moreover have "length w - 1 < length (cumsum w)"
    using assms(1) by simp
  ultimately show "sum_list w \<in> set (cumsum w)"
    by (metis nth_mem)
qed

lemma nth_cumsum_tail:
  assumes "w \<noteq> []" "\<forall>x \<in> set w. (0::real) \<le> x" "i < length w"
  shows "Max (set (cumsum w)) - cumsum w ! i = tail_after w i"
proof -
  have "sum_list w = sum_list (take (Suc i) w) + sum_list (drop (Suc i) w)"
    by (metis append_take_drop_id sum_list_append)
  then show ?thesis
    using assms by (simp add: Max_cumsum tail_after_def cumsum_nth)
qed

lemma z_plain_eq:
  assumes "length nlive = length w" "w \<noteq> []" "\<forall>x \<in> set w. (0::real) \<le> x"
    "\<forall>n \<in> set nlive. 0 < n"
  shows "z_plain_weight (map (\<lambda>c. Max (set (cumsum w)) - c) (cumsum w)) nlive
          = Inr (z_unscaled w nlive)"
proof -
  have "0 \<notin> set nlive" using assms(4) by auto
  moreover have "map (\<lambda>(imp, n). imp * (1 / n))
       (zip (map (\<lambda>c. Max (set (cumsum w)) - c) (cumsum w)) nlive) = z_unscaled w nlive"
    using assms by (intro nth_equalityI) (auto simp: z_unscaled_def nth_cumsum_tail)
  ultimately show ?thesis by (simp add: z_plain_weight_def)
qed

lemma Max_scaled:
  assumes "t \<noteq> []" "0 < Max (set t)"
  shows "Max (set (map (\<lambda>x. x / Max (set t)) t)) = (1::real)"
proof -
  have "mono (\<lambda>x::real. x / Max (set t))"
    using assms(2) by (auto simp: mono_def divide_right_mono)
  then have "Max ((\<lambda>x. x / Max (set t)) ` set t) = Max (set t) / Max (set t)"
    using assms(1) by (subst mono_Max_commute) auto
  then show ?thesis using assms(2) by simp
qed

lemma z_unscaled_pos:
  assumes "length nlive = length w" "\<forall>n \<in> set nlive. 0 < n" "0 < sum_list (tl w)"
  shows "0 < Max (set (z_unscaled w nlive))"
proof -
  have ne: "w \<noteq> []" using assms(3) by auto
  then have "0 < length w" by simp
  have "0 < nlive ! 0" using assms(1,2) ne by (metis length_greater_0_conv nth_mem)
  moreover have "tail_after w 0 = sum_list (tl w)" by (simp add: tail_after_def drop_Suc)
  ultimately have "0 < z_unscaled w nlive ! 0"
    using assms(3) ne by (simp add: z_unscaled_def)
  moreover have "z_unscaled w nlive ! 0 \<in> set (z_unscaled w nlive)"
    using ne by (intro nth_mem) (simp add: z_unscaled_def)
  ultimately show ?thesis
    by (meson List.finite_set Max_ge less_le_trans)
qed

lemma z_importance_computes:
  assumes "length nlive = length w" "\<forall>x \<in> set w. 0 \<le> x"
    "\<forall>n \<in> set nlive. 0 < n" "0 < sum_list (tl w)"
  shows "z_importance w nlive False
           = Inr (map (\<lambda>x. x / Max (set (z_unscaled w nlive))) (z_unscaled w nlive))"
proof -
  have ne: "w \<noteq> []" using assms(4) by auto
  have une: "z_unscaled w nlive \<noteq> []" using ne by (simp add: z_unscaled_def)
  have "div_by_max (z_unscaled w nlive)
      = Inr (map (\<lambda>x. x / Max (set (z_unscaled w nlive))) (z_unscaled w nlive))"
    using z_unscaled_pos[OF assms(1,3,4)] une by (simp add: div_by_max_def np_max_eq_Max)
  then show ?thesis
    using ne assms(1) z_plain_eq[OF assms(1) ne assms(2,3)]
    by (simp add: z_importance_def np_max_eq_Max bcast_def Let_def)
qed

text \<open>
  Claim C1, as the code has it. For non-negative weights with some weight after the
  first entry and positive live counts of the same length, \<open>z_importance\<close> with
  \<open>exact = False\<close> returns the weight strictly after each index,
  \<open>\<Sum>\<^sub>j\<^sub>>\<^sub>i w[j]\<close>, divided by \<open>nlive[i]\<close> and rescaled so that the maximum is one; and
  \<open>max(cumsum(w)) - cumsum(w)[i]\<close> is that sum over \<open>j > i\<close> at every index.
\<close>

theorem z_importance_tail_after:
  assumes "length nlive = length w" "\<forall>x \<in> set w. 0 \<le> x"
    "\<forall>n \<in> set nlive. 0 < n" "0 < sum_list (tl w)"
  shows "z_importance w nlive False
           = Inr (map (\<lambda>x. x / Max (set (z_unscaled w nlive))) (z_unscaled w nlive))
       \<and> Max (set (map (\<lambda>x. x / Max (set (z_unscaled w nlive))) (z_unscaled w nlive))) = 1
       \<and> (\<exists>m. np_max (cumsum w) = Inr m
              \<and> (\<forall>i < length w. m - cumsum w ! i = tail_after w i))"
proof -
  have ne: "w \<noteq> []" using assms(4) by auto
  have une: "z_unscaled w nlive \<noteq> []" using ne by (simp add: z_unscaled_def)
  have "np_max (cumsum w) = Inr (Max (set (cumsum w)))"
    using ne by (simp add: np_max_eq_Max)
  moreover have "\<forall>i < length w. Max (set (cumsum w)) - cumsum w ! i = tail_after w i"
    using nth_cumsum_tail[OF ne assms(2)] by blast
  ultimately show ?thesis
    using z_importance_computes[OF assms] Max_scaled[OF une z_unscaled_pos[OF assms(1,3,4)]]
    by blast
qed

text \<open>The theorem at \<open>w = [1, 2, 3]\<close>, \<open>nlive = [2, 2, 1]\<close>.\<close>

theorem z_importance_tail_after_witness:
  "z_importance [1, 2, 3] [2, 2, 1] False = Inr [1, 3 / 5, 0]
   \<and> Max (set [1, 3 / 5, 0 :: real]) = 1
   \<and> np_max (cumsum [1, 2, 3]) = Inr 6
   \<and> map (\<lambda>i. 6 - cumsum [1, 2, 3] ! i) [0, 1, 2] = [5, 3, 0]
   \<and> map (tail_after [1, 2, 3]) [0, 1, 2] = [5, 3, 0]"
proof -
  have u: "z_unscaled [1, 2, 3] [2, 2, 1] = [5 / 2, 3 / 2, 0]"
    by (simp add: z_unscaled_def tail_after_def upt_rec)
  have "z_importance [1, 2, 3] [2, 2, 1] False = Inr [1, 3 / 5, 0]"
    using z_importance_tail_after[of "[2, 2, 1]" "[1, 2, 3]"] by (simp add: u)
  then show ?thesis
    by (simp add: cumsum_def tail_after_def)
qed

text \<open>
  Claim C1 as stated fails. At \<open>w = [1, 1]\<close>, \<open>nlive = [1, 1]\<close> the code returns
  \<open>[1, 0]\<close> where the sum over \<open>j \<ge> i\<close> gives \<open>[1, 1/2]\<close>, and
  \<open>max(cumsum) - cumsum[0] = 1\<close> where the sum over \<open>j \<ge> 0\<close> is \<open>2\<close>. At a single
  weight every tail is zero and the rescaling divides zero by zero.
\<close>

theorem z_importance_tail_from_counterexample:
  "z_importance [1, 1] [1, 1] False = Inr [1, 0]
   \<and> z_importance_spec [1, 1] [1, 1] = [1, 1 / 2]
   \<and> z_importance [1, 1] [1, 1] False \<noteq> Inr (z_importance_spec [1, 1] [1, 1])
   \<and> np_max (cumsum [1, 1]) = Inr 2
   \<and> 2 - cumsum [1, 1] ! 0 \<noteq> tail_from [1, 1] 0
   \<and> z_importance [1] [1] False = Inl NonFinite"
  by (simp add: z_importance_def z_importance_spec_def cumsum_def bcast_def z_plain_weight_def
      div_by_max_def tail_from_def upt_rec)

section \<open>Properties of the thread generator\<close>

lemma thread_logx_loop_stop:
  "\<not> last l > e \<Longrightarrow> thread_logx_loop rng e l pos = Some (l, pos)"
  by (subst thread_logx_loop.simps) simp

lemma thread_logx_loop_step:
  "last l > e \<Longrightarrow>
     thread_logx_loop rng e l pos = thread_logx_loop rng e (l @ [last l + rng pos]) (Suc pos)"
  by (subst thread_logx_loop.simps) simp

lemma sorted_wrt_gt_last:
  "l \<noteq> [] \<Longrightarrow> sorted_wrt (>) l \<Longrightarrow> x \<in> set l \<Longrightarrow> last l \<le> (x::real)"
proof (induction l)
  case Nil
  then show ?case by simp
next
  case (Cons a l)
  show ?case
  proof (cases "l = []")
    case True
    with Cons.prems show ?thesis by simp
  next
    case False
    then have "last l \<in> set l" by simp
    then have "last l < a" using Cons.prems(2) by simp
    moreover have "x \<in> set l \<Longrightarrow> last l \<le> x"
      using Cons.IH[OF False] Cons.prems(2) by simp
    ultimately show ?thesis using Cons.prems(3) False by auto
  qed
qed

text \<open>The loop returns once the partial sums of the draws have reached \<open>logx_end\<close>.\<close>

lemma thread_logx_loop_returns:
  assumes "last l + (\<Sum>i<n. rng (pos + i)) \<le> e" "\<forall>k. rng k < 0" "l \<noteq> []"
    "sorted_wrt (>) l"
  shows "\<exists>l' pos'. thread_logx_loop rng e l pos = Some (l', pos')
           \<and> l' \<noteq> [] \<and> sorted_wrt (>) l' \<and> last l' \<le> e"
  using assms
proof (induction n arbitrary: l pos)
  case 0
  then show ?case by (simp add: thread_logx_loop_stop)
next
  case (Suc n)
  show ?case
  proof (cases "last l > e")
    case False
    with Suc.prems show ?thesis by (simp add: thread_logx_loop_stop)
  next
    case True
    let ?l = "l @ [last l + rng pos]"
    have "(\<Sum>i<Suc n. rng (pos + i)) = rng pos + (\<Sum>i<n. rng (Suc pos + i))"
      unfolding sum.lessThan_Suc_shift by simp
    then have a: "last ?l + (\<Sum>i<n. rng (Suc pos + i)) \<le> e"
      using Suc.prems(1) by simp
    have "rng pos < 0" using Suc.prems(2) by simp
    then have "\<forall>x \<in> set l. last l + rng pos < x"
      using sorted_wrt_gt_last[OF Suc.prems(3,4)] by fastforce
    then have b: "sorted_wrt (>) ?l"
      using Suc.prems(4) by (simp add: sorted_wrt_append)
    show ?thesis
      using Suc.IH[OF a Suc.prems(2) _ b] True by (simp add: thread_logx_loop_step)
  qed
qed

lemma thread_logx_loop_extends_aux:
  assumes "thread_logx_loop rng e l pos = Some y"
  shows "\<exists>ext. fst y = l @ ext \<and> (last l > e \<longrightarrow> ext \<noteq> [])"
proof (rule thread_logx_loop.raw_induct[OF _ assms,
      where P = "\<lambda>rng e l pos y. \<exists>ext. fst y = l @ ext \<and> (last l > e \<longrightarrow> ext \<noteq> [])"],
    goal_cases)
  case (1 loop rng e l pos y)
  show ?case
  proof (cases "last l > e")
    case True
    with 1(2) have "loop rng e (l @ [last l + rng pos]) (Suc pos) = Some y" by simp
    from 1(1)[OF this] obtain ext where "fst y = (l @ [last l + rng pos]) @ ext"
      by blast
    then show ?thesis by simp
  next
    case False
    with 1(2) show ?thesis by auto
  qed
qed

lemma thread_logx_loop_extends:
  "thread_logx_loop rng e l pos = Some (l', pos')
     \<Longrightarrow> \<exists>ext. l' = l @ ext \<and> (last l > e \<longrightarrow> ext \<noteq> [])"
  using thread_logx_loop_extends_aux[of rng e l pos "(l', pos')"] by simp

lemma generate_thread_logx_empty_iff:
  "(\<exists>pos'. generate_thread_logx rng e ls keep pos = Some ([], pos'))
     \<longleftrightarrow> (\<not> keep \<and> ls + rng pos \<le> e)"
proof
  assume "\<exists>pos'. generate_thread_logx rng e ls keep pos = Some ([], pos')"
  then obtain pos' l' where
    l': "thread_logx_loop rng e [ls + rng pos] (Suc pos) = Some (l', pos')"
    and e: "(if \<not> keep then butlast l' else l') = []"
    by (auto simp: generate_thread_logx_def split: option.splits prod.splits)
  from thread_logx_loop_extends[OF l'] obtain ext where
    ext: "l' = [ls + rng pos] @ ext" "ls + rng pos > e \<longrightarrow> ext \<noteq> []"
    by auto
  from e ext(1) have "\<not> keep" by (auto split: if_splits)
  moreover from e ext(1) \<open>\<not> keep\<close> have "ext = []"
    by (cases ext) (auto simp: butlast_append)
  ultimately show "\<not> keep \<and> ls + rng pos \<le> e"
    using ext(2) by auto
next
  assume "\<not> keep \<and> ls + rng pos \<le> e"
  then show "\<exists>pos'. generate_thread_logx rng e ls keep pos = Some ([], pos')"
    by (simp add: generate_thread_logx_def thread_logx_loop_stop)
qed

lemma generate_thread_logx_first:
  "\<not> keep \<Longrightarrow> ls + rng pos \<le> e
     \<Longrightarrow> generate_thread_logx rng e ls keep pos = Some ([], Suc pos)"
  by (simp add: generate_thread_logx_def thread_logx_loop_stop)

text \<open>
  Claim C4, as the code has it. On an interval \<open>logx_start > logx_end\<close>,
  \<open>generate_single_thread\<close> returns \<open>None\<close>, without raising, exactly when no
  point is retained, which is when \<open>keep_final_point\<close> is false and the first draw
  already falls at or below \<open>logx_end\<close>. Both versions of the function do so.
\<close>

theorem generate_single_thread_returns_None:
  assumes "logx_start > logx_end"
  shows "((\<exists>pos'. generate_single_thread st lib rng (Some logx_end) label logx_start keep pos
                    = Some (Inr (None, pos')))
            \<longleftrightarrow> (\<not> keep \<and> logx_start + rng pos \<le> logx_end))
       \<and> ((\<exists>pos'. npns_generate_single_thread st rng (Some logx_end) logx_start keep pos
                    = Some (Inr (None, pos')))
            \<longleftrightarrow> (\<not> keep \<and> logx_start + rng pos \<le> logx_end))
       \<and> ((\<exists>pos'. generate_thread_logx rng logx_end logx_start keep pos = Some ([], pos'))
            \<longleftrightarrow> (\<not> keep \<and> logx_start + rng pos \<le> logx_end))"
proof -
  have "(\<exists>pos'. generate_single_thread st lib rng (Some logx_end) label logx_start keep pos
                    = Some (Inr (None, pos')))
        \<longleftrightarrow> (\<exists>pos'. generate_thread_logx rng logx_end logx_start keep pos = Some ([], pos'))"
    using assms
    by (auto simp: generate_single_thread_def Let_def split: option.splits if_splits)
  moreover have
    "(\<exists>pos'. npns_generate_single_thread st rng (Some logx_end) logx_start keep pos
                    = Some (Inr (None, pos')))
        \<longleftrightarrow> (\<exists>pos'. generate_thread_logx rng logx_end logx_start keep pos = Some ([], pos'))"
    using assms
    by (auto simp: npns_generate_single_thread_def split: option.splits if_splits)
  ultimately show ?thesis
    using generate_thread_logx_empty_iff[of rng logx_end logx_start keep pos] by simp
qed

text \<open>
  The theorem at \<open>logx_start = 0\<close>, \<open>logx_end = - 1\<close>, with a first draw of
  \<open>- 3\<close> and \<open>keep_final_point\<close> false.
\<close>

theorem generate_single_thread_returns_None_witness:
  "(0::real) > - 1 \<and> (0::real) + (- 3) \<le> - 1
   \<and> (\<exists>pos'. generate_single_thread example_settings
                 example_library
                 (\<lambda>k. - 3) (Some (- 1)) 1 0 False 0 = Some (Inr (None, pos')))
   \<and> (\<exists>pos'. npns_generate_single_thread example_settings (\<lambda>k. - 3) (Some (- 1)) 0 False 0
                 = Some (Inr (None, pos')))"
  using generate_single_thread_returns_None[of "- 1" 0 example_settings example_library "\<lambda>k. - 3" 1 False 0]
  by simp

text \<open>
  Claim C4 as stated fails: with \<open>keep_final_point\<close> false and a first draw of
  \<open>- 2\<close> on the interval from \<open>0\<close> to \<open>- 1\<close>, no point is retained and the
  function returns \<open>None\<close>; it raises nothing.
\<close>

theorem generate_single_thread_EmptyThread_counterexample:
  "generate_thread_logx (\<lambda>k. - 2) (- 1) 0 False 0 = Some ([], 1)
   \<and> generate_single_thread example_settings example_library (\<lambda>k. - 2) (Some (- 1)) 1 0 False 0
       = Some (Inr (None, 1))
   \<and> (\<forall>e. generate_single_thread example_settings example_library (\<lambda>k. - 2) (Some (- 1)) 1 0 False 0
          \<noteq> Some (Inl e))"
  by (simp add: generate_single_thread_def generate_thread_logx_first)

lemma generate_thread_logx_keep:
  assumes "(\<Sum>i<Suc n. rng (pos + i)) \<le> logx_end - logx_start" "\<forall>k. rng k < 0"
  shows "\<exists>l pos'. generate_thread_logx rng logx_end logx_start True pos = Some (l, pos')
           \<and> l \<noteq> [] \<and> sorted_wrt (>) l \<and> last l \<le> logx_end"
proof -
  have "(\<Sum>i<Suc n. rng (pos + i)) = rng pos + (\<Sum>i<n. rng (Suc pos + i))"
    unfolding sum.lessThan_Suc_shift by simp
  then have "last [logx_start + rng pos] + (\<Sum>i<n. rng (Suc pos + i)) \<le> logx_end"
    using assms(1) by simp
  from thread_logx_loop_returns[OF this assms(2)]
  show ?thesis by (auto simp: generate_thread_logx_def)
qed

lemma map_s_logx_thread_rows [simp]:
  "map s_logx (thread_rows st label l thetas) = l"
  by (rule nth_equalityI) (simp_all add: thread_rows_def)

lemma thread_rows_eq_Nil [simp]: "thread_rows st label l thetas = [] \<longleftrightarrow> l = []"
  by (simp add: thread_rows_def)

text \<open>
  Claim C9. Let \<open>logx_start > logx_end\<close>, let every draw \<open>log(U)\<close> be negative,
  and let the draws reach the end of the interval: some partial sum of the draws from
  the current position is at most \<open>logx_end - logx_start\<close>. Then
  \<open>generate_thread_logx\<close> with \<open>keep_final_point\<close> true returns a list that is
  not empty, strictly decreasing, and ends at or below \<open>logx_end\<close>; and
  \<open>generate_single_thread\<close> returns a thread of these points, with at least one
  sample, whenever the shell sampler returns one row per radius. Under
  \<open>keep_final_point\<close> the function never returns \<open>None\<close>.
\<close>

theorem generate_single_thread_keep_final_point:
  assumes "logx_start > logx_end"
    and "\<forall>k. rng k < 0"
    and "(\<Sum>i<Suc n. rng (pos + i)) \<le> logx_end - logx_start"
    and "\<forall>rs. length (sample_nsphere_shells lib rs (n_dim st) (dims_to_sample st)) = length rs"
  shows "\<exists>l pos' rows.
           generate_thread_logx rng logx_end logx_start True pos = Some (l, pos')
         \<and> l \<noteq> [] \<and> sorted_wrt (>) l \<and> last l \<le> logx_end
         \<and> generate_single_thread st lib rng (Some logx_end) label logx_start True pos
             = Some (Inr (Some rows, pos'))
         \<and> rows \<noteq> [] \<and> map s_logx rows = l
         \<and> (\<forall>p. generate_single_thread st lib rng (Some logx_end) label logx_start True pos
                  \<noteq> Some (Inr (None, p)))"
proof -
  from generate_thread_logx_keep[OF assms(3,2)] obtain l pos' where
    l: "generate_thread_logx rng logx_end logx_start True pos = Some (l, pos')"
      "l \<noteq> []" "sorted_wrt (>) l" "last l \<le> logx_end"
    by blast
  let ?thetas = "sample_nsphere_shells lib (map (r_given_logx st) l) (n_dim st) (dims_to_sample st)"
  have len: "length ?thetas = length l" using assms(4) by simp
  have "generate_single_thread st lib rng (Some logx_end) label logx_start True pos
          = Some (Inr (Some (thread_rows st label l ?thetas), pos'))"
    using assms(1) l(1,2) len by (simp add: generate_single_thread_def Let_def)
  then show ?thesis using l by auto
qed

text \<open>
  The theorem on the interval from \<open>0\<close> to \<open>- 3/2\<close> with every draw equal to
  \<open>- 1\<close>: the thread has the two points \<open>- 1\<close> and \<open>- 2\<close>.
\<close>

theorem generate_single_thread_keep_final_point_witness:
  "generate_thread_logx (\<lambda>k. - 1) (- 3 / 2) 0 True 0 = Some ([- 1, - 2], 2)
   \<and> (\<exists>rows. generate_single_thread example_settings example_library (\<lambda>k. - 1)
                 (Some (- 3 / 2)) 7 0 True 0 = Some (Inr (Some rows, 2))
             \<and> rows \<noteq> [] \<and> map s_logx rows = [- 1, - 2])"
proof -
  have e: "generate_thread_logx (\<lambda>k. - 1) (- 3 / 2) 0 True 0 = Some ([- 1, - 2], 2)"
    by (simp add: generate_thread_logx_def thread_logx_loop_step thread_logx_loop_stop
        numeral_2_eq_2)
  have a: "(0::real) > - 3 / 2" by simp
  have b: "\<forall>k. (\<lambda>k. - 1 :: real) k < 0" by simp
  have c: "(\<Sum>i<Suc 1. (\<lambda>k. - 1 :: real) (0 + i)) \<le> - 3 / 2 - 0" by simp
  have d: "\<forall>rs. length (sample_nsphere_shells example_library rs (n_dim example_settings)
                  (dims_to_sample example_settings)) = length rs"
    by (simp add: example_library_def example_shells_def)
  from generate_single_thread_keep_final_point[where pos = 0 and label = 7, OF a b c d]
  show ?thesis using e by auto
qed

section \<open>Properties of the insertion interval\<close>

lemma np_where_snoc:
  "np_where P (xs @ [x]) = np_where P xs @ (if P x then [length xs] else [])"
proof -
  have "filter (\<lambda>i. P ((xs @ [x]) ! i)) [0..<length xs]
          = filter (\<lambda>i. P (xs ! i)) [0..<length xs]"
    by (rule filter_cong) (simp_all add: nth_append)
  then show ?thesis by (simp add: np_where_def)
qed

lemma length_np_where: "length (np_where P xs) = length (filter P xs)"
  by (induction xs rule: rev_induct) (simp_all add: np_where_snoc, simp add: np_where_def)

lemma np_where_single:
  assumes "k < length xs" "P (xs ! k)" "length (filter P xs) = 1"
  shows "np_where P xs = [k]"
proof -
  have "k \<in> set (np_where P xs)" using assms(1,2) by (simp add: np_where_def)
  moreover have "length (np_where P xs) = 1" using assms(3) by (simp add: length_np_where)
  ultimately show ?thesis by (cases "np_where P xs") auto
qed

lemma lookup_logx_eq:
  assumes "k < length samples"
  shows "lookup_logx samples (s_logl (samples ! k))
           = (if count_logl samples (s_logl (samples ! k)) \<noteq> 1 then Inl AssertionError
              else Inr (s_logx (samples ! k)))"
proof (cases "count_logl samples (s_logl (samples ! k)) = 1")
  case True
  then have "np_where (\<lambda>s. s_logl s = s_logl (samples ! k)) samples = [k]"
    using assms by (intro np_where_single) (simp_all add: count_logl_def)
  with True show ?thesis by (simp add: lookup_logx_def)
next
  case False
  then show ?thesis by (simp add: lookup_logx_def length_np_where count_logl_def)
qed

lemma sorted_le_last: "x \<in> set xs \<Longrightarrow> sorted xs \<Longrightarrow> x \<le> last (xs :: nat list)"
  by (induction xs) auto

lemma np_where_bounds:
  assumes "np_where P xs \<noteq> []"
  shows "hd (np_where P xs) < length xs" "last (np_where P xs) < length xs"
    "P (xs ! hd (np_where P xs))" "P (xs ! last (np_where P xs))"
    "\<forall>i < hd (np_where P xs). \<not> P (xs ! i)"
    "\<forall>i < length xs. last (np_where P xs) < i \<longrightarrow> \<not> P (xs ! i)"
proof -
  let ?H = "np_where P xs"
  have h: "hd ?H \<in> set ?H" and l: "last ?H \<in> set ?H" using assms by simp_all
  from h show "hd ?H < length xs" "P (xs ! hd ?H)" by (simp_all add: np_where_def)
  from l show "last ?H < length xs" "P (xs ! last ?H)" by (simp_all add: np_where_def)
  have s: "sorted ?H" by (simp add: np_where_def sorted_wrt_filter)
  show "\<forall>i < hd ?H. \<not> P (xs ! i)"
  proof (intro allI impI notI)
    fix i assume i: "i < hd ?H" "P (xs ! i)"
    with \<open>hd ?H < length xs\<close> have "i \<in> set ?H" by (simp add: np_where_def)
    then have "hd ?H \<le> i" using s assms by (cases ?H) auto
    with i show False by simp
  qed
  show "\<forall>i < length xs. last ?H < i \<longrightarrow> \<not> P (xs ! i)"
  proof (intro allI impI notI)
    fix i assume i: "i < length xs" "last ?H < i" "P (xs ! i)"
    then have "i \<in> set ?H" by (simp add: np_where_def)
    then have "i \<le> last ?H" using s by (rule sorted_le_last)
    with i show False by simp
  qed
qed

text \<open>
  Claim C5. Let \<open>dynamic_fraction\<close> lie strictly between 0 and 1, let the importance
  vector have one entry per sample, and let \<open>H\<close> be the indices whose importance
  exceeds \<open>dynamic_fraction\<close>, of which there is at least one. Then
  \<open>min_max_importance\<close> fails, with the assertion of a unique match, if and only
  if a key it looks up, \<open>logl[H[0] - 1]\<close> when \<open>H[0] \<noteq> 0\<close> or \<open>logl[H[-1] + 1]\<close>
  when \<open>H[-1]\<close> is not the final row, is the \<open>logl\<close> of a number of samples other
  than one. Otherwise it returns \<open>logl_min = nan\<close>, \<open>logx_min = 0\<close> when
  \<open>H[0] = 0\<close> and the \<open>logl\<close> and \<open>logx\<close> of row \<open>H[0] - 1\<close> when not; and
  \<open>logl_max\<close>, \<open>logx_max\<close> from the final row when \<open>H[-1]\<close> is the final
  row and from row \<open>H[-1] + 1\<close> when not.
\<close>

theorem min_max_importance_cases:
  assumes "0 < dynamic_fraction st" and "dynamic_fraction st < 1"
    and "length importance = length samples"
    and "H = np_where (\<lambda>x. x > dynamic_fraction st) importance" and "H \<noteq> []"
    and "bad_min = (hd H \<noteq> 0 \<and> count_logl samples (s_logl (samples ! (hd H - 1))) \<noteq> 1)"
    and "bad_max = (Suc (last H) \<noteq> length samples
                     \<and> count_logl samples (s_logl (samples ! (last H + 1))) \<noteq> 1)"
  shows "min_max_importance importance samples st =
           (if bad_min \<or> bad_max then Inl AssertionError
            else Inr ((if hd H = 0 then None else Some (s_logl (samples ! (hd H - 1))),
                       if Suc (last H) = length samples then s_logl (last samples)
                       else s_logl (samples ! (last H + 1))),
                      (if hd H = 0 then 0 else s_logx (samples ! (hd H - 1)),
                       if Suc (last H) = length samples then s_logx (last samples)
                       else s_logx (samples ! (last H + 1)))))
       \<and> ((\<exists>e. min_max_importance importance samples st = Inl e) \<longleftrightarrow> bad_min \<or> bad_max)
       \<and> importance ! hd H > dynamic_fraction st
       \<and> (\<forall>i < hd H. \<not> importance ! i > dynamic_fraction st)
       \<and> importance ! last H > dynamic_fraction st
       \<and> (\<forall>i < length importance. last H < i \<longrightarrow> \<not> importance ! i > dynamic_fraction st)"
proof -
  note b = np_where_bounds[OF assms(5)[unfolded assms(4)], folded assms(4)]
  have hl: "hd H < length samples" "last H < length samples"
    using b(1,2) assms(3) by simp_all
  then have ne: "0 < length samples" by auto
  have last_eq: "int (last H) = int (length samples) - 1 \<longleftrightarrow> Suc (last H) = length samples"
    by auto
  have lo: "hd H \<noteq> 0 \<Longrightarrow> hd H - 1 < length samples" using hl(1) by simp
  have hi: "Suc (last H) \<noteq> length samples \<Longrightarrow> last H + 1 < length samples"
    using hl(2) by auto
  have eq: "min_max_importance importance samples st =
           (if bad_min \<or> bad_max then Inl AssertionError
            else Inr ((if hd H = 0 then None else Some (s_logl (samples ! (hd H - 1))),
                       if Suc (last H) = length samples then s_logl (last samples)
                       else s_logl (samples ! (last H + 1))),
                      (if hd H = 0 then 0 else s_logx (samples ! (hd H - 1)),
                       if Suc (last H) = length samples then s_logx (last samples)
                       else s_logx (samples ! (last H + 1)))))"
  proof (cases "hd H = 0")
    case h0: True
    show ?thesis
    proof (cases "Suc (last H) = length samples")
      case True
      with h0 assms(1,2,5,6,7) ne hl show ?thesis
        unfolding min_max_importance_def assms(4)[symmetric] Let_def
        by (auto simp: last_eq)
    next
      case False
      with h0 assms(1,2,5,6,7) hi ne hl show ?thesis
        unfolding min_max_importance_def assms(4)[symmetric] Let_def
        by (auto simp: last_eq lookup_logx_eq)
    qed
  next
    case h0: False
    show ?thesis
    proof (cases "Suc (last H) = length samples")
      case True
      with h0 assms(1,2,5,6,7) lo ne hl show ?thesis
        unfolding min_max_importance_def assms(4)[symmetric] Let_def
        by (auto simp: last_eq lookup_logx_eq)
    next
      case False
      with h0 assms(1,2,5,6,7) lo hi ne hl show ?thesis
        unfolding min_max_importance_def assms(4)[symmetric] Let_def
        by (auto simp: last_eq lookup_logx_eq)
    qed
  qed
  have "(\<exists>e. min_max_importance importance samples st = Inl e) \<longleftrightarrow> bad_min \<or> bad_max"
    unfolding eq by auto
  with eq b(3-6) show ?thesis by blast
qed

text \<open>
  The theorem on four samples with importance \<open>[1/10, 1, 9/10, 1/5]\<close> and
  \<open>dynamic_fraction = 1/2\<close>, so that \<open>H = [1, 2]\<close>: with distinct likelihoods
  the interval runs from row 0 to row 3, and with the likelihood of row 0 repeated
  the lookup fails.
\<close>

theorem min_max_importance_cases_witness:
  "min_max_importance [1 / 10, 1, 9 / 10, 1 / 5]
      [row 1 (- 1), row 2 (- 2), row 3 (- 3), row 4 (- 4)] example_settings
     = Inr ((Some 1, 4), (- 1, - 4))
   \<and> min_max_importance [1 / 10, 1, 9 / 10, 1 / 5]
      [row 1 (- 1), row 1 (- 2), row 3 (- 3), row 4 (- 4)] example_settings
     = Inl AssertionError"
proof -
  have df: "dynamic_fraction example_settings = 1 / 2" "0 < dynamic_fraction example_settings"
    "dynamic_fraction example_settings < 1"
    by (simp_all add: example_settings_def)
  have H: "[1, 2] = np_where (\<lambda>x. x > dynamic_fraction example_settings)
                      [1 / 10, 1, 9 / 10, 1 / 5 :: real]"
    by (simp add: np_where_def df(1) upt_rec)
  have ne: "[1, 2 :: nat] \<noteq> []" by simp
  let ?a = "[row 1 (- 1), row 2 (- 2), row 3 (- 3), row 4 (- 4)]"
  let ?b = "[row 1 (- 1), row 1 (- 2), row 3 (- 3), row 4 (- 4)]"
  have a1: "False = (hd [1, 2 :: nat] \<noteq> 0
              \<and> count_logl ?a (s_logl (?a ! (hd [1, 2 :: nat] - 1))) \<noteq> 1)"
    by (simp add: count_logl_def row_def)
  have a2: "False = (Suc (last [1, 2 :: nat]) \<noteq> length ?a
              \<and> count_logl ?a (s_logl (?a ! (last [1, 2 :: nat] + 1))) \<noteq> 1)"
    by (simp add: count_logl_def row_def)
  have b1: "True = (hd [1, 2 :: nat] \<noteq> 0
              \<and> count_logl ?b (s_logl (?b ! (hd [1, 2 :: nat] - 1))) \<noteq> 1)"
    by (simp add: count_logl_def row_def)
  have b2: "False = (Suc (last [1, 2 :: nat]) \<noteq> length ?b
              \<and> count_logl ?b (s_logl (?b ! (last [1, 2 :: nat] + 1))) \<noteq> 1)"
    by (simp add: count_logl_def row_def)
  have "min_max_importance [1 / 10, 1, 9 / 10, 1 / 5] ?a example_settings
          = Inr ((Some 1, 4), (- 1, - 4))"
    using min_max_importance_cases[OF df(2,3) _ H ne a1 a2] by (simp add: row_def)
  moreover have "min_max_importance [1 / 10, 1, 9 / 10, 1 / 5] ?b example_settings
          = Inl AssertionError"
    using min_max_importance_cases[OF df(2,3) _ H ne b1 b2] by simp
  ultimately show ?thesis by simp
qed

text \<open>
  When no importance exceeds \<open>dynamic_fraction\<close> the index array is empty and its
  first element does not exist.
\<close>

lemma min_max_importance_no_high:
  assumes "0 < dynamic_fraction st" "dynamic_fraction st < 1"
    "\<forall>x \<in> set importance. \<not> x > dynamic_fraction st"
  shows "min_max_importance importance samples st = Inl IndexError"
proof -
  have "np_where (\<lambda>x. x > dynamic_fraction st) importance = []"
    using assms(3) by (auto simp: np_where_def filter_empty_conv)
  then show ?thesis using assms(1,2) by (simp add: min_max_importance_def)
qed

section \<open>Properties of the standard run\<close>

lemma standard_loop_stop:
  "\<not> loop_test st s \<Longrightarrow> standard_loop st rng nlive lt s = Some s"
  by (subst standard_loop.simps) simp

lemma standard_loop_step:
  "loop_test st s \<Longrightarrow>
     standard_loop st rng nlive lt s = standard_loop st rng nlive lt (standard_step st rng nlive lt s)"
  by (subst standard_loop.simps) simp

lemma tested_trans_step:
  "tested c f (f s0) s \<Longrightarrow> c s0 \<Longrightarrow> tested c f s0 s"
  by (induction rule: tested.induct) (auto intro: tested.intros)

text \<open>
  When the loop returns, the state it returns was tested, and the test failed there.
\<close>

lemma standard_loop_result:
  assumes "standard_loop st rng nlive lt s0 = Some s"
  shows "tested (loop_test st) (standard_step st rng nlive lt) s0 s \<and> \<not> loop_test st s"
proof (rule standard_loop.raw_induct[OF _ assms,
      where P = "\<lambda>st rng nlive lt s0 s.
        tested (loop_test st) (standard_step st rng nlive lt) s0 s \<and> \<not> loop_test st s"],
    goal_cases)
  case (1 loop st rng nlive lt s0 s)
  show ?case
  proof (cases "loop_test st s0")
    case True
    with 1(2) have "loop st rng nlive lt (standard_step st rng nlive lt s0) = Some s" by simp
    from 1(1)[OF this] True show ?thesis by (auto intro: tested_trans_step)
  next
    case False
    with 1(2) show ?thesis by (auto intro: tested.intros)
  qed
qed

lemma standard_step_fields [simp]:
  "length (live_points (standard_step st rng nlive lt s)) = length (live_points s)"
  "rng_pos (standard_step st rng nlive lt s) = Suc (rng_pos s)"
  "dead_points_list (standard_step st rng nlive lt s)
     = dead_points_list s @ [live_points s ! first_min_index (live_points s)]"
  "logz_dead (standard_step st rng nlive lt s) \<noteq> None"
  "logz_live (standard_step st rng nlive lt s)
     = logz_live_formula (live_points (standard_step st rng nlive lt s))
         (logx_i (standard_step st rng nlive lt s)) nlive"
  by (simp_all add: standard_step_def Let_def logz_live_formula_def)

lemma initial_state_fields [simp]:
  "length (live_points (initial_state st rng nlive p)) = nlive"
  "rng_pos (initial_state st rng nlive p) = p + nlive"
  "dead_points_list (initial_state st rng nlive p) = []"
  "logz_dead (initial_state st rng nlive p) = None"
  "logx_i (initial_state st rng nlive p) = 0"
  "logz_live (initial_state st rng nlive p)
     = logz_live_formula (live_points (initial_state st rng nlive p)) 0 nlive"
  by (simp_all add: initial_state_def Let_def initial_live_points_def logz_live_formula_def)

lemma npns_initial_state_fields [simp]:
  "length (live_points (npns_initial_state st rng nlive p)) = nlive"
  "rng_pos (npns_initial_state st rng nlive p) = p + nlive"
  "dead_points_list (npns_initial_state st rng nlive p) = []"
  "logz_dead (npns_initial_state st rng nlive p) = None"
  "logx_i (npns_initial_state st rng nlive p) = 0"
  "live_points (npns_initial_state st rng nlive p) = live_points (initial_state st rng nlive p)"
  "logz_live (npns_initial_state st rng nlive p)
     = logz_live_formula (live_points (npns_initial_state st rng nlive p)) 0 nlive
         + ln (real nlive)"
  by (simp_all add: npns_initial_state_def initial_state_def Let_def initial_live_points_def
      logz_live_formula_def)

text \<open>
  In the run of \<^verbatim>\<open>PerfectNestedSampling/nested_sampling.py\<close> the live evidence is
  given by the same formula at every test of the loop condition, the first included;
  the loop runs while the condition holds and returns at the first state where it
  fails.
\<close>

lemma standard_run_logz_live:
  assumes "tested (loop_test st) (standard_step st rng nlive lt) (initial_state st rng nlive p) s"
  shows "logz_live s = logz_live_formula (live_points s) (logx_i s) nlive"
  using assms by (induction rule: tested.induct) simp_all

lemma standard_run_loop_exit:
  assumes "standard_loop st rng nlive lt (initial_state st rng nlive p) = Some s"
  shows "logz_live s = logz_live_formula (live_points s) (logx_i s) nlive
       \<and> (\<forall>d. logz_dead s = Some d \<longrightarrow> logz_live s - ln (termination_fraction st) \<le> d)
       \<and> logz_dead s \<noteq> None"
proof -
  from standard_loop_result[OF assms]
  have t: "tested (loop_test st) (standard_step st rng nlive lt) (initial_state st rng nlive p) s"
    and n: "\<not> loop_test st s" by simp_all
  from n show ?thesis
    using standard_run_logz_live[OF t] by (auto simp: loop_test_def split: option.splits)
qed

text \<open>
  In the earlier version the formula holds at every test but the first, where the
  term \<open>- log(nlive)\<close> is missing.
\<close>

lemma npns_run_logz_live:
  assumes "tested (loop_test st) (standard_step st rng nlive lt) (npns_initial_state st rng nlive p) s"
  shows "logz_live s = logz_live_formula (live_points s) (logx_i s) nlive
           + (if s = npns_initial_state st rng nlive p then ln (real nlive) else 0)"
  using assms
proof (induction rule: tested.induct)
  case tested_first
  show ?case by simp
next
  case (tested_next s)
  have "standard_step st rng nlive lt s \<noteq> npns_initial_state st rng nlive p"
    by (metis npns_initial_state_fields(4) standard_step_fields(4))
  then show ?case by simp
qed

text \<open>
  Claim C2, at the earlier version of the run with two live points whose first draws
  are both \<open>- 1\<close>: the live evidence tested first is
  \<open>logsumexp(logl) + logx_i = log 2 - 1\<close>, where the formula of the claim gives
  \<open>logsumexp(logl) + logx_i - log(2) = - 1\<close>. The first test succeeds with either
  value, since the dead evidence is \<open>-inf\<close>.
\<close>

theorem npns_first_test_omits_log_nlive:
  "logz_live (npns_initial_state example_settings (\<lambda>k. - 1) 2 0) = ln 2 - 1
   \<and> logz_live_formula (live_points (npns_initial_state example_settings (\<lambda>k. - 1) 2 0))
        (logx_i (npns_initial_state example_settings (\<lambda>k. - 1) 2 0)) 2 = - 1
   \<and> logz_live (initial_state example_settings (\<lambda>k. - 1) 2 0) = - 1
   \<and> loop_test example_settings (npns_initial_state example_settings (\<lambda>k. - 1) 2 0)"
proof -
  have "exp (- 1 :: real) + exp (- 1) = 2 * exp (- 1)" by simp
  then have "ln (exp (- 1 :: real) + exp (- 1)) = ln 2 - 1"
    by (simp add: ln_mult del: mult_2 mult_2_right)
  then show ?thesis
    by (simp add: npns_initial_state_def initial_state_def initial_live_points_def Let_def
        logz_live_formula_def logsumexp_def example_settings_def loop_test_def upt_rec
        numeral_2_eq_2)
qed

subsection \<open>The array of live-point counts\<close>

lemma fill_tail_append:
  "fill_tail (xs @ ys) a = (case fill_tail xs a of Inl e \<Rightarrow> Inl e | Inr a' \<Rightarrow> fill_tail ys a')"
  by (induction xs arbitrary: a) (auto split: sum.splits)

text \<open>
  Writing \<open>i\<close> at the \<open>i\<close>-th place from the end for \<open>i = 1, \<dots>, k - 1\<close>: the
  entry at index \<open>j\<close> becomes \<open>n - j\<close> where that is below \<open>k\<close>.
\<close>

lemma fill_tail_upt:
  assumes "k \<le> Suc (length a)"
  shows "fill_tail [1..<k] a
           = Inr (map (\<lambda>j. if length a - j < k then real (length a - j) else a ! j)
                    [0..<length a])"
  using assms
proof (induction k)
  case 0
  show ?case by (simp add: map_nth)
next
  case (Suc k)
  show ?case
  proof (cases "k = 0")
    case True
    then show ?thesis
      by (auto simp: map_nth intro!: nth_equalityI)
  next
    case False
    then have u: "[1..<Suc k] = [1..<k] @ [k]" by simp
    let ?b = "map (\<lambda>j. if length a - j < k then real (length a - j) else a ! j) [0..<length a]"
    have b: "fill_tail [1..<k] a = Inr ?b" using Suc by simp
    have kl: "1 \<le> k" "k \<le> length a" using False Suc.prems by simp_all
    have "?b[length a - k := real k]
            = map (\<lambda>j. if length a - j < Suc k then real (length a - j) else a ! j)
                [0..<length a]"
      using kl by (intro nth_equalityI) (auto simp: nth_list_update)
    then show ?thesis
      unfolding u fill_tail_append b using kl by (simp add: set_from_end_def)
  qed
qed

lemma make_nlive_array_eq:
  assumes "nlive \<le> n" "0 < nlive"
  shows "make_nlive_array n nlive
           = Inr (map (\<lambda>j. if j < n - nlive then real nlive else real (n - j)) [0..<n])"
proof -
  have e: "map (\<lambda>j. if n - j < nlive then real (n - j) else replicate n (real nlive) ! j) [0..<n]
          = map (\<lambda>j. if j < n - nlive then real nlive else real (n - j)) [0..<n]"
    using assms by (intro nth_equalityI) auto
  show ?thesis
    unfolding make_nlive_array_def e[symmetric]
    using fill_tail_upt[of nlive "replicate n (real nlive)"] assms by simp
qed

lemma npns_make_nlive_array_eq:
  assumes "nlive \<le> n"
  shows "npns_make_nlive_array n nlive
           = Inr (map (\<lambda>j. if j < n - nlive then real nlive else real (n - j)) [0..<n])"
proof -
  have e: "map (\<lambda>j. if n - j < nlive + 1 then real (n - j) else replicate n (real nlive) ! j) [0..<n]
          = map (\<lambda>j. if j < n - nlive then real nlive else real (n - j)) [0..<n]"
    using assms by (intro nth_equalityI) auto
  show ?thesis
    unfolding npns_make_nlive_array_def e[symmetric]
    using fill_tail_upt[of "nlive + 1" "replicate n (real nlive)"] assms by simp
qed

lemma standard_run_counts:
  assumes "tested (loop_test st) (standard_step st rng nlive lt) (initial_state st rng nlive p) s"
  shows "length (live_points s) = nlive \<and> rng_pos s = p + nlive + length (dead_points_list s)"
  using assms by (induction rule: tested.induct) simp_all

lemma argsort_ok_length: "argsort_ok xs q \<Longrightarrow> length q = length xs"
  by (metis argsort_ok_def length_upt minus_nat.diff_0 size_mset)

text \<open>
  Claim C7. Let a standard run with \<open>nlive\<close> live points return, having made
  \<open>n_dead\<close> replacements: after the \<open>nlive\<close> draws of the first live points it has
  made one draw per replacement. Then the run has \<open>n_dead + nlive\<close> samples and as
  many entries in \<open>nlive_array\<close>; the first \<open>n_dead\<close> entries are \<open>nlive\<close>;
  and the \<open>j\<close>-th entry from the end is \<open>j\<close> for \<open>j\<close> from \<open>1\<close> to
  \<open>nlive\<close>. The loop of the earlier version, where it writes the last \<open>nlive\<close>
  entries, builds the same array.
\<close>

theorem standard_run_nlive_array:
  assumes "generate_standard_run st lib rng is_dyn p = Some (Inr (rn, p'))"
    and "nlive = (if is_dyn then ninit st else nlive_const st)"
    and "\<forall>xs. argsort_ok xs (argsort lib xs)"
    and "n_dead = p' - p - nlive"
  shows "p' = p + nlive + n_dead \<and> 0 < n_dead
       \<and> length (run_logl rn) = n_dead + nlive
       \<and> length (run_nlive_array rn) = n_dead + nlive
       \<and> (\<forall>i < n_dead. run_nlive_array rn ! i = real nlive)
       \<and> (\<forall>j. 1 \<le> j \<and> j \<le> nlive \<longrightarrow> run_nlive_array rn ! (n_dead + nlive - j) = real j)
       \<and> npns_make_nlive_array (n_dead + nlive) nlive = Inr (run_nlive_array rn)"
proof -
  from assms(1) have pos: "0 < nlive"
    unfolding generate_standard_run_def assms(2)[symmetric] Let_def
    by (auto split: if_splits)
  from assms(1) obtain s where
    loop: "standard_loop st rng nlive (logtrapz_of nlive) (initial_state st rng nlive p) = Some s"
    and fin: "finish_run st lib nlive s = Inr rn" and p': "p' = rng_pos s"
    unfolding generate_standard_run_def assms(2)[symmetric] Let_def
    by (auto split: if_splits option.splits sum.splits)
  from standard_run_counts[OF standard_loop_result[OF loop, THEN conjunct1]]
  have len: "length (live_points s) = nlive"
    and rp: "rng_pos s = p + nlive + length (dead_points_list s)" by simp_all
  have nd: "n_dead = length (dead_points_list s)" using assms(4) p' rp by simp
  from fin have dne: "dead_points_list s \<noteq> []"
    by (auto simp: finish_run_def split: if_splits)
  let ?points = "dead_points_list s
                   @ map (\<lambda>i. live_points s ! i) (argsort lib (map lp_logl (live_points s)))"
  have lp: "length ?points = n_dead + nlive"
    using argsort_ok_length[OF assms(3)[rule_format, of "map lp_logl (live_points s)"]] len nd
    by simp
  from fin dne have arr: "make_nlive_array (n_dead + nlive) nlive = Inr (run_nlive_array rn)"
    and ll: "run_logl rn = map lp_logl ?points"
    unfolding finish_run_def Let_def lp by (auto split: sum.splits)
  have eq: "run_nlive_array rn
         = map (\<lambda>j. if j < n_dead then real nlive else real (n_dead + nlive - j))
             [0..<n_dead + nlive]"
    using arr make_nlive_array_eq[of nlive "n_dead + nlive"] pos by simp
  have "\<forall>j. 1 \<le> j \<and> j \<le> nlive \<longrightarrow> run_nlive_array rn ! (n_dead + nlive - j) = real j"
    unfolding eq by auto
  moreover have "\<forall>i < n_dead. run_nlive_array rn ! i = real nlive"
    unfolding eq by auto
  moreover have "npns_make_nlive_array (n_dead + nlive) nlive = Inr (run_nlive_array rn)"
    using npns_make_nlive_array_eq[of nlive "n_dead + nlive"] eq by simp
  moreover have "length (run_nlive_array rn) = n_dead + nlive" unfolding eq by simp
  moreover have "length (run_logl rn) = n_dead + nlive" using ll lp by simp
  ultimately show ?thesis using nd dne p' rp by simp
qed


subsection \<open>A run with one live point\<close>

lemma logtrapz_of_1_ge: "logtrapz_of 1 \<ge> - 1"
proof -
  have e: "exp (1::real) \<ge> 2" using exp_ge_add_one_self[of "1::real"] by simp
  have "exp (- 1 :: real) = inverse (exp 1)" by (rule exp_minus)
  also have "\<dots> \<le> inverse 2" using e by (intro le_imp_inverse_le) simp_all
  finally have i: "exp (- 1 :: real) \<le> 1 / 2" by simp
  have r: "1 / exp (- 1 :: real) = exp 1" by (simp add: exp_minus inverse_eq_divide)
  define X where "X = 0.5 * (1 / exp (- 1 :: real) - exp (- 1))"
  have "3 * exp (- 1 :: real) \<le> exp 1" using e i by linarith
  then have le: "exp (- 1 :: real) \<le> X" unfolding X_def r by simp
  then have "0 < X" using exp_gt_zero[of "- 1 :: real"] by linarith
  then have "ln (exp (- 1 :: real)) \<le> ln X" using le by (intro ln_mono) simp_all
  then show ?thesis by (simp add: logtrapz_of_def Let_def X_def)
qed

lemma argsort_stable_ok: "argsort_ok xs (argsort_stable xs)"
  by (simp add: argsort_ok_def argsort_stable_def)

lemma example_initial_state:
  "initial_state example_settings example_rng 1 0
     = \<lparr> live_points = [\<lparr> lp_logl = - 1, lp_r = 1, lp_logx = - 1, lp_label = 1 \<rparr>],
         logx_i = 0, logz_dead = None, logz_live = - 1, dead_points_list = [], rng_pos = 1 \<rparr>"
  by (simp add: initial_state_def initial_live_points_def example_settings_def example_rng_def
      logsumexp_def)

lemma example_first_step:
  "standard_step example_settings example_rng 1 (logtrapz_of 1)
      (initial_state example_settings example_rng 1 0)
     = \<lparr> live_points = [\<lparr> lp_logl = - 11, lp_r = 11, lp_logx = - 11, lp_label = 1 \<rparr>],
         logx_i = - 1, logz_dead = Some (logtrapz_of 1 - 2), logz_live = - 12,
         dead_points_list = [\<lparr> lp_logl = - 1, lp_r = 1, lp_logx = - 1, lp_label = 1 \<rparr>],
         rng_pos = 2 \<rparr>"
  unfolding example_initial_state
  by (simp add: standard_step_def first_min_index_def np_where_def
      replace_point_def example_settings_def example_rng_def logsumexp_def Let_def
      del: One_nat_def)

lemma example_loop:
  "standard_loop example_settings example_rng 1 (logtrapz_of 1)
      (initial_state example_settings example_rng 1 0)
     = Some \<lparr> live_points = [\<lparr> lp_logl = - 11, lp_r = 11, lp_logx = - 11, lp_label = 1 \<rparr>],
         logx_i = - 1, logz_dead = Some (logtrapz_of 1 - 2), logz_live = - 12,
         dead_points_list = [\<lparr> lp_logl = - 1, lp_r = 1, lp_logx = - 1, lp_label = 1 \<rparr>],
         rng_pos = 2 \<rparr>"
proof -
  have a: "loop_test example_settings (initial_state example_settings example_rng 1 0)"
    by (simp add: loop_test_def)
  have b: "\<not> loop_test example_settings
              (standard_step example_settings example_rng 1 (logtrapz_of 1)
                (initial_state example_settings example_rng 1 0))"
    unfolding example_first_step using logtrapz_of_1_ge ln_2_less_1
    by (simp add: loop_test_def example_settings_def ln_div)
  show ?thesis
    using standard_loop_step[OF a] standard_loop_stop[OF b] example_first_step by simp
qed

text \<open>
  The theorem on the example problem with one live point: the first point, at
  \<open>logx = - 1\<close>, dies and is replaced at \<open>logx = - 11\<close>, where the live evidence
  has fallen below the threshold. Beside it, the array for five samples and three live
  points.
\<close>

theorem standard_run_nlive_array_witness:
  "(\<exists>rn. generate_standard_run example_settings example_library example_rng True 0
            = Some (Inr (rn, 2))
         \<and> run_logl rn = [- 1, - 11] \<and> run_nlive_array rn = [1, 1])
   \<and> make_nlive_array 5 3 = Inr [3, 3, 3, 2, 1]
   \<and> npns_make_nlive_array 5 3 = Inr [3, 3, 3, 2, 1]"
proof -
  have "argsort_stable [- 11 :: real] = [0]" by (simp add: argsort_stable_def)
  then obtain rn where
    f: "finish_run example_settings example_library 1
          \<lparr> live_points = [\<lparr> lp_logl = - 11, lp_r = 11, lp_logx = - 11, lp_label = 1 \<rparr>],
            logx_i = - 1, logz_dead = Some (logtrapz_of 1 - 2), logz_live = - 12,
            dead_points_list = [\<lparr> lp_logl = - 1, lp_r = 1, lp_logx = - 1, lp_label = 1 \<rparr>],
            rng_pos = 2 \<rparr> = Inr rn"
    and l: "run_logl rn = [- 1, - 11]"
    by (simp add: finish_run_def make_nlive_array_def example_library_def)
  have s: "ninit example_settings = 1" "termination_fraction example_settings = 1 / 2"
    by (simp_all add: example_settings_def)
  have g: "generate_standard_run example_settings example_library example_rng True 0
          = Some (Inr (rn, 2))"
    unfolding generate_standard_run_def Let_def if_True s example_loop
    by (simp add: f del: One_nat_def)
  have ok: "\<forall>xs. argsort_ok xs (argsort example_library xs)"
    by (simp add: example_library_def argsort_stable_ok)
  have n: "(1::nat) = (if True then ninit example_settings else nlive_const example_settings)"
    by (simp add: example_settings_def)
  have d: "(1::nat) = 2 - 0 - 1" by simp
  from standard_run_nlive_array[OF g n ok d]
  have "length (run_nlive_array rn) = 2" "run_nlive_array rn ! 0 = 1"
    "run_nlive_array rn ! 1 = 1"
    by auto
  then have "run_nlive_array rn = [1, 1]"
    by (intro nth_equalityI) (auto simp: less_Suc_eq numeral_2_eq_2)
  moreover have "make_nlive_array 5 3 = Inr [3, 3, 3, 2, 1]"
    by (simp add: make_nlive_array_def set_from_end_def upt_rec numeral_eq_Suc)
  moreover have "npns_make_nlive_array 5 3 = Inr [3, 3, 3, 2, 1]"
    by (simp add: npns_make_nlive_array_def set_from_end_def upt_rec numeral_eq_Suc)
  ultimately show ?thesis using g l by blast
qed

section \<open>Properties of the dynamic run\<close>

subsection \<open>The sort that ends an iteration\<close>

lemma argsort_ok_nth:
  assumes "argsort_ok xs q" "i < length q"
  shows "q ! i < length xs"
proof -
  have "q ! i \<in> set q" using assms(2) by simp
  then have "q ! i \<in># mset [0..<length xs]"
    using assms(1) by (metis argsort_ok_def set_mset_mset)
  then show ?thesis by simp
qed






subsection \<open>The sample budget of the insertion loop\<close>

lemma mark_birth_length: "mark_birth samples l = Inr m \<Longrightarrow> length m = length samples"
  by (auto simp: mark_birth_def Let_def split: option.splits if_splits)

lemma vstack_eq: "vstack a b = Inr c \<Longrightarrow> c = a @ b"
  by (auto simp: vstack_def split: if_splits)

text \<open>
  The batch loop appends the threads it generates, one per pass, and nothing else.
\<close>

lemma batch_loop_growth:
  assumes "batch_loop k st lib rng lmm xmm s = Some (Inr b)"
  shows "length (batch_threads k st lib rng xmm (length (ds_thread_min_max s)) (ds_pos s)) = k
       \<and> length (ds_samples b)
           = length (ds_samples s)
             + sum_list (map length
                 (batch_threads k st lib rng xmm (length (ds_thread_min_max s)) (ds_pos s)))
       \<and> ds_n_samples b = ds_n_samples s"
  using assms
proof (induction k arbitrary: s)
  case 0
  then show ?case by simp
next
  case (Suc k)
  let ?g = "generate_single_thread st lib rng (Some (snd xmm))
              (real (length (ds_thread_min_max s) + 1)) (fst xmm) True (ds_pos s)"
  from Suc.prems obtain thread p where g: "?g = Some (Inr (thread, p))"
    by (auto simp: Let_def split: option.splits sum.splits)
  from Suc.prems g obtain marked where m: "mark_birth (ds_samples s) (fst lmm) = Inr marked"
    by (auto simp: Let_def split: sum.splits)
  from Suc.prems g m obtain rows where r: "thread = Some rows"
    by (auto simp: Let_def split: option.splits)
  from Suc.prems g m r obtain stacked where v: "vstack marked rows = Inr stacked"
    by (auto simp: Let_def split: sum.splits)
  let ?s = "s \<lparr> ds_samples := stacked,
                 ds_thread_min_max := ds_thread_min_max s @ [(fst lmm, s_logl (last rows))],
                 ds_pos := p \<rparr>"
  from Suc.prems g m r v have rec: "batch_loop k st lib rng lmm xmm ?s = Some (Inr b)"
    by (simp add: Let_def)
  have bt: "batch_threads (Suc k) st lib rng xmm (length (ds_thread_min_max s)) (ds_pos s)
              = rows # batch_threads k st lib rng xmm (length (ds_thread_min_max s) + 1) p"
    using g r by simp
  have len: "length stacked = length (ds_samples s) + length rows"
    using vstack_eq[OF v] mark_birth_length[OF m] by simp
  from Suc.IH[OF rec] show ?case
    unfolding bt using len by simp
qed

lemma dynamic_iteration_growth:
  assumes "dynamic_iteration st lib rng s = Some (Inr s')"
    and "\<forall>xs. length (argsort lib xs) = length xs"
  shows "length (iteration_threads st lib rng s) = nat (nbatch st)
       \<and> ds_n_samples s' = length (ds_samples s')
       \<and> length (ds_samples s')
           = length (ds_samples s) + sum_list (map length (iteration_threads st lib rng s))"
proof -
  from assms(1) obtain importance where
    i: "point_importance (ds_samples s) (ds_thread_min_max s) st lib = Inr importance"
    by (auto simp: dynamic_iteration_def split: sum.splits)
  from assms(1) i obtain lmm xmm where
    mm: "min_max_importance importance (ds_samples s) st = Inr (lmm, xmm)"
    by (auto simp: dynamic_iteration_def split: sum.splits)
  from assms(1) i mm obtain b where
    b: "batch_loop (nat (nbatch st)) st lib rng lmm xmm s = Some (Inr b)"
    and s': "s' = b \<lparr> ds_samples := sort_by_logl lib (ds_samples b),
                        ds_n_samples := length (sort_by_logl lib (ds_samples b)) \<rparr>"
    by (auto simp: dynamic_iteration_def split: sum.splits option.splits)
  have it: "iteration_threads st lib rng s
              = batch_threads (nat (nbatch st)) st lib rng xmm
                  (length (ds_thread_min_max s)) (ds_pos s)"
    using i mm by (simp add: iteration_threads_def)
  have "length (sort_by_logl lib (ds_samples b)) = length (ds_samples b)"
    using assms(2) by (simp add: sort_by_logl_def)
  then show ?thesis
    using batch_loop_growth[OF b] unfolding it s' by simp
qed

lemma sum_list_length_bounds:
  assumes "\<forall>th \<in> set ths. 1 \<le> length th \<and> length th \<le> L"
  shows "length ths \<le> sum_list (map length ths) \<and> sum_list (map length ths) \<le> length ths * L"
  using assms by (induction ths) (auto simp: add_mono)

lemma dynamic_loop_stop:
  "\<not> real (ds_n_samples s) < n_max \<Longrightarrow> dynamic_loop st lib rng n_max s = Some (Inr s)"
  by (subst dynamic_loop.simps) simp

lemma dynamic_loop_step:
  "real (ds_n_samples s) < n_max \<Longrightarrow> dynamic_iteration st lib rng s = Some (Inr s')
     \<Longrightarrow> dynamic_loop st lib rng n_max s = dynamic_loop st lib rng n_max s'"
  by (subst dynamic_loop.simps) simp

lemma dynamic_loop_error:
  "real (ds_n_samples s) < n_max \<Longrightarrow> dynamic_iteration st lib rng s = Some (Inl e)
     \<Longrightarrow> dynamic_loop st lib rng n_max s = Some (Inl e)"
  by (subst dynamic_loop.simps) simp

text \<open>
  From a state at the head of the loop that is within the budget, the loop returns
  within the budget: by induction on the number of samples still missing.
\<close>

lemma dynamic_loop_returns:
  assumes "1 \<le> nbatch st"
    and "\<forall>xs. length (argsort lib xs) = length xs"
    and "\<forall>s. loop_head st lib rng n_max s0 s \<and> real (ds_n_samples s) < n_max
           \<longrightarrow> dynamic_iteration st lib rng s \<noteq> None
             \<and> (\<forall>th \<in> set (iteration_threads st lib rng s).
                   1 \<le> length th \<and> length th \<le> L)"
    and "loop_head st lib rng n_max s0 s"
    and "ds_n_samples s = length (ds_samples s)"
    and "real (ds_n_samples s) \<le> n_max + real (nat (nbatch st) * L)"
    and "k = nat \<lceil>n_max\<rceil> - ds_n_samples s"
  shows "(\<exists>e. dynamic_loop st lib rng n_max s = Some (Inl e))
       \<or> (\<exists>f. dynamic_loop st lib rng n_max s = Some (Inr f)
           \<and> loop_head st lib rng n_max s0 f
           \<and> n_max \<le> real (ds_n_samples f)
           \<and> real (ds_n_samples f) \<le> n_max + real (nat (nbatch st) * L)
           \<and> ds_n_samples f = length (ds_samples f))"
  using assms(4-7)
proof (induction k arbitrary: s rule: less_induct)
  case (less k)
  show ?case
  proof (cases "real (ds_n_samples s) < n_max")
    case False
    then show ?thesis
      using less.prems dynamic_loop_stop[OF False] by auto
  next
    case True
    from assms(3) less.prems(1) True have
      nn: "dynamic_iteration st lib rng s \<noteq> None"
      and th: "\<forall>th \<in> set (iteration_threads st lib rng s). 1 \<le> length th \<and> length th \<le> L"
      by blast+
    show ?thesis
    proof (cases "dynamic_iteration st lib rng s")
      case None
      with nn show ?thesis by simp
    next
      case (Some r)
      show ?thesis
      proof (cases r)
        case (Inl e)
        with Some True show ?thesis by (simp add: dynamic_loop_error)
      next
        case (Inr s')
        with Some have it: "dynamic_iteration st lib rng s = Some (Inr s')" by simp
    note g = dynamic_iteration_growth[OF it assms(2)]
    note bd = sum_list_length_bounds[OF th]
    let ?add = "sum_list (map length (iteration_threads st lib rng s))"
    have n': "ds_n_samples s' = ds_n_samples s + ?add"
      using g less.prems(2) by simp
    have lo: "1 \<le> ?add" using bd g assms(1) by linarith
    have hi: "?add \<le> nat (nbatch st) * L" using bd g by simp
    have head: "loop_head st lib rng n_max s0 s'"
      using less.prems(1) True it by (rule loop_head_next)
    have up: "real (ds_n_samples s') \<le> n_max + real (nat (nbatch st) * L)"
    proof -
      have "real (ds_n_samples s') = real (ds_n_samples s) + real ?add"
        unfolding n' by simp
      also have "\<dots> \<le> n_max + real (nat (nbatch st) * L)"
        using True of_nat_mono[OF hi, where ?'a = real] by (intro add_mono) simp_all
      finally show ?thesis .
    qed
    have "ds_n_samples s < nat \<lceil>n_max\<rceil>"
      using True by linarith
    then have dec: "nat \<lceil>n_max\<rceil> - ds_n_samples s' < k"
      unfolding less.prems(4) n' using lo by linarith
    from less.IH[OF dec head _ up refl] g
    show ?thesis
      unfolding dynamic_loop_step[OF True it] by simp
      qed
    qed
  qed
qed


subsection \<open>One iteration on the example problem\<close>

lemma example_point_importance:
  "point_importance [row 1 (- 1), row 2 (- 2)] [(None, 2)] example_settings example_library
     = Inr [1, 0]"
  by (simp add: point_importance_def example_library_def example_dict_def w_relative_of_def
      example_settings_def z_importance_def cumsum_def bcast_def z_plain_weight_def
      div_by_max_def row_def upt_rec Let_def)

lemma example_min_max:
  "min_max_importance [1, 0] [row 1 (- 1), row 2 (- 2)] example_settings
     = Inr ((None, 2), (0, - 2))"
  by (simp add: min_max_importance_def np_where_def lookup_logx_def example_settings_def
      row_def upt_rec Let_def)

lemma example_thread:
  "generate_single_thread example_settings example_library example_rng (Some (- 2)) 2 0 True 0
     = Some (Inr (Some [thread_row (- 1) 0, thread_row (- 11) (- 1)], 2))"
proof -
  have "generate_thread_logx example_rng (- 2) 0 True 0 = Some ([- 1, - 11], 2)"
    by (simp add: generate_thread_logx_def thread_logx_loop_step thread_logx_loop_stop
        example_rng_def numeral_2_eq_2)
  then show ?thesis
    by (simp add: generate_single_thread_def example_settings_def example_library_def
        example_shells_def thread_rows_def thread_row_def upt_rec Let_def)
qed


lemma example_batch:
  "batch_loop 1 example_settings example_library example_rng (None, 2) (0, - 2) example_state
     = Some (Inr \<lparr> ds_samples = [row 1 (- 1), row 2 (- 2), thread_row (- 1) 0, thread_row (- 11) (- 1)],
                    ds_thread_min_max = [(None, 2), (None, - 11)],
                    ds_n_samples = 2, ds_pos = 2 \<rparr>)"
  using example_thread
  by (simp add: example_state_def mark_birth_def vstack_def row_def thread_row_def)

lemma example_iteration:
  "dynamic_iteration example_settings example_library example_rng example_state
     = Some (Inr \<lparr> ds_samples = [thread_row (- 11) (- 1), thread_row (- 1) 0, row 1 (- 1), row 2 (- 2)],
                    ds_thread_min_max = [(None, 2), (None, - 11)],
                    ds_n_samples = 4, ds_pos = 2 \<rparr>)"
proof -
  have n: "nat (nbatch example_settings) = 1" by (simp add: example_settings_def)
  have a: "argsort example_library [1, 2, - 1, - 11] = [3, 2, 0, 1]"
    by (simp add: example_library_def argsort_stable_def upt_rec)
  have s: "sort_by_logl example_library [row 1 (- 1), row 2 (- 2), thread_row (- 1) 0, thread_row (- 11) (- 1)]
             = [thread_row (- 11) (- 1), thread_row (- 1) 0, row 1 (- 1), row 2 (- 2)]"
    using a by (simp add: sort_by_logl_def row_def thread_row_def)
  show ?thesis
    unfolding dynamic_iteration_def n
    using example_point_importance example_min_max example_batch
    by (simp add: example_state_def s)
qed

lemma example_iteration_threads:
  "iteration_threads example_settings example_library example_rng example_state = [[thread_row (- 1) 0, thread_row (- 11) (- 1)]]"
proof -
  have n: "nat (nbatch example_settings) = 1" by (simp add: example_settings_def)
  show ?thesis
    unfolding iteration_threads_def n
    using example_point_importance example_min_max example_thread
    by (simp add: example_state_def thread_row_def)
qed

lemma example_loop_head:
  assumes "loop_head example_settings example_library example_rng 3 example_state s"
  shows "s = example_state \<or> ds_n_samples s = 4"
  using assms
proof (induction rule: loop_head.induct)
  case loop_head_first
  show ?case by simp
next
  case (loop_head_next s s')
  from loop_head_next(2,4) have "s = example_state" by auto
  with loop_head_next(3) show ?case by (auto simp: example_iteration)
qed


text \<open>
  Claim C6. Let the insertion loop start with fewer than \<open>n_samples_max\<close>
  samples, let \<open>nbatch\<close> be at least one, and let every iteration that the loop
  begins come to an end, each thread it generates having at least one and at most
  \<open>max_thread_len\<close> samples. Then the loop terminates; and unless an iteration
  has raised, the final number of samples is at least \<open>n_samples_max\<close> and at
  most \<open>n_samples_max + nbatch * max_thread_len\<close>.
\<close>

theorem dynamic_loop_sample_budget:
  assumes "ds_n_samples s0 = length (ds_samples s0)"
    and "real (ds_n_samples s0) < n_max"
    and "1 \<le> nbatch st"
    and "\<forall>xs. length (argsort lib xs) = length xs"
    and "\<forall>s. loop_head st lib rng n_max s0 s \<and> real (ds_n_samples s) < n_max
           \<longrightarrow> dynamic_iteration st lib rng s \<noteq> None
             \<and> (\<forall>th \<in> set (iteration_threads st lib rng s).
                   1 \<le> length th \<and> length th \<le> max_thread_len)"
  shows "(\<exists>e. dynamic_loop st lib rng n_max s0 = Some (Inl e))
       \<or> (\<exists>s. dynamic_loop st lib rng n_max s0 = Some (Inr s)
           \<and> n_max \<le> real (ds_n_samples s)
           \<and> real (ds_n_samples s) \<le> n_max + real (nat (nbatch st) * max_thread_len)
           \<and> ds_n_samples s = length (ds_samples s))"
proof -
  have "real (ds_n_samples s0) \<le> n_max + real (nat (nbatch st) * max_thread_len)"
    using assms(2) by (simp add: add_increasing2)
  from dynamic_loop_returns[OF assms(3,4,5) loop_head_first assms(1) this refl]
  show ?thesis by blast
qed

text \<open>
  The theorem on the example problem, from two samples with \<open>n_samples_max = 3\<close>,
  \<open>nbatch = 1\<close> and threads of at most two samples: the one iteration adds a
  thread of two samples, and the loop returns with four.
\<close>

theorem dynamic_loop_sample_budget_witness:
  "\<exists>s. dynamic_loop example_settings example_library example_rng 3 example_state
          = Some (Inr s)
       \<and> ds_n_samples s = 4 \<and> length (ds_samples s) = 4"
proof -
  have a: "ds_n_samples example_state = length (ds_samples example_state)"
    by (simp add: example_state_def)
  have b: "real (ds_n_samples example_state) < 3" by (simp add: example_state_def)
  have c: "1 \<le> nbatch example_settings" by (simp add: example_settings_def)
  have d: "\<forall>xs. length (argsort example_library xs) = length xs"
    by (simp add: example_library_def argsort_stable_def)
  have e: "\<forall>s. loop_head example_settings example_library example_rng 3 example_state s
                \<and> real (ds_n_samples s) < 3
           \<longrightarrow> dynamic_iteration example_settings example_library example_rng s \<noteq> None
             \<and> (\<forall>th \<in> set (iteration_threads example_settings example_library example_rng s).
                   1 \<le> length th \<and> length th \<le> 2)"
  proof (intro allI impI)
    fix s
    assume "loop_head example_settings example_library example_rng 3 example_state s
              \<and> real (ds_n_samples s) < 3"
    then have "s = example_state" using example_loop_head[of s] by auto
    then show "dynamic_iteration example_settings example_library example_rng s \<noteq> None
             \<and> (\<forall>th \<in> set (iteration_threads example_settings example_library example_rng s).
                   1 \<le> length th \<and> length th \<le> 2)"
      by (simp add: example_iteration example_iteration_threads)
  qed
  have f: "dynamic_loop example_settings example_library example_rng 3 example_state
          = Some (Inr \<lparr> ds_samples = [thread_row (- 11) (- 1), thread_row (- 1) 0,
                                          row 1 (- 1), row 2 (- 2)],
                         ds_thread_min_max = [(None, 2), (None, - 11)],
                         ds_n_samples = 4, ds_pos = 2 \<rparr>)"
    using dynamic_loop_step[OF b example_iteration] by (simp add: dynamic_loop_stop)
  from dynamic_loop_sample_budget[OF a b c d e] obtain s where
    "dynamic_loop example_settings example_library example_rng 3 example_state = Some (Inr s)"
      "3 \<le> real (ds_n_samples s)" "real (ds_n_samples s) \<le> 3 + real (nat 1 * 2)"
      "ds_n_samples s = length (ds_samples s)"
    unfolding f by (auto simp: example_settings_def)
  then show ?thesis unfolding f by auto
qed

text \<open>
  With \<open>nbatch = 0\<close> an iteration generates no thread and leaves the number of
  samples as it was: from a state below the budget the loop does not return.
\<close>

lemma dynamic_loop_no_batch:
  "dynamic_loop (example_settings \<lparr> nbatch := 0 \<rparr>) example_library example_rng 3 example_state
     = None"
proof -
  let ?st = "example_settings \<lparr> nbatch := 0 \<rparr>"
  have pi: "point_importance [row 1 (- 1), row 2 (- 2)] [(None, 2)] ?st example_library
              = Inr [1, 0]"
    by (simp add: point_importance_def example_library_def example_dict_def w_relative_of_def
        example_settings_def z_importance_def cumsum_def bcast_def z_plain_weight_def
        div_by_max_def row_def upt_rec Let_def)
  have mm: "min_max_importance [1, 0] [row 1 (- 1), row 2 (- 2)] ?st = Inr ((None, 2), (0, - 2))"
    by (simp add: min_max_importance_def np_where_def lookup_logx_def example_settings_def
        row_def upt_rec Let_def)
  have a: "argsort example_library [1, 2] = [0, 1]"
    by (simp add: example_library_def argsort_stable_def upt_rec)
  have so: "sort_by_logl example_library [row 1 (- 1), row 2 (- 2)] = [row 1 (- 1), row 2 (- 2)]"
    using a by (simp add: sort_by_logl_def row_def)
  have n: "nat (nbatch ?st) = 0" by simp
  have it: "dynamic_iteration ?st example_library example_rng example_state
              = Some (Inr example_state)"
    unfolding dynamic_iteration_def n using pi mm by (simp add: example_state_def so)
  have lt: "real (ds_n_samples example_state) < 3" by (simp add: example_state_def)
  have "False" if "dynamic_loop ?st example_library example_rng 3 example_state = Some y" for y
  proof -
    have "\<not> (?st = ?st \<and> example_library = example_library \<and> example_rng = example_rng
             \<and> (3::real) = 3 \<and> example_state = example_state)"
    proof (rule dynamic_loop.raw_induct[OF _ that,
          where P = "\<lambda>st lib rng n_max s y. \<not> (st = ?st \<and> lib = example_library
                        \<and> rng = example_rng \<and> n_max = 3 \<and> s = example_state)"],
        goal_cases)
      case (1 loop st lib rng n_max s y)
      show ?case
      proof
        assume e: "st = ?st \<and> lib = example_library \<and> rng = example_rng \<and> n_max = 3
                     \<and> s = example_state"
        with 1(2) it lt have "loop ?st example_library example_rng 3 example_state = Some y"
          by simp
        from 1(1)[OF this] show False by simp
      qed
    qed
    then show False by simp
  qed
  then show ?thesis by (cases "dynamic_loop ?st example_library example_rng 3 example_state") auto
qed

section \<open>Credible-interval estimators\<close>

lemma interp_segment:
  fixes a b fa fb x :: real
  assumes "a \<le> x" "x < b" "fa \<le> fb"
  shows "fa \<le> (fb - fa) / (b - a) * (x - a) + fa"
    and "(fb - fa) / (b - a) * (x - a) + fa \<le> fb"
proof -
  have ba: "0 < b - a" using assms by simp
  have "0 \<le> (fb - fa) / (b - a) * (x - a)" using assms ba by simp
  then show "fa \<le> (fb - fa) / (b - a) * (x - a) + fa" by simp
  have "(x - a) / (b - a) \<le> 1" using assms ba by simp
  then have "(fb - fa) * ((x - a) / (b - a)) \<le> (fb - fa) * 1"
    using assms by (intro mult_left_mono) simp_all
  then show "(fb - fa) / (b - a) * (x - a) + fa \<le> fb" by simp
qed

lemma interp_segment_mono:
  fixes a b fa fb x y :: real
  assumes "a \<le> x" "x \<le> y" "y < b" "fa \<le> fb"
  shows "(fb - fa) / (b - a) * (x - a) + fa \<le> (fb - fa) / (b - a) * (y - a) + fa"
proof -
  have "0 \<le> (fb - fa) / (b - a)" using assms by simp
  then have "(fb - fa) / (b - a) * (x - a) \<le> (fb - fa) / (b - a) * (y - a)"
    using assms by (intro mult_left_mono) simp_all
  then show ?thesis by simp
qed

lemma interp_from_bounds:
  assumes "length fp = length xp" "xp \<noteq> []" "sorted fp" "hd xp \<le> x"
  shows "hd fp \<le> interp_from x xp fp \<and> interp_from x xp fp \<le> last fp"
  using assms
proof (induction x xp fp rule: interp_from.induct)
  case (1 x a b xp fa fb fp)
  have fab: "fa \<le> fb" using 1 by simp
  have fbl: "fb \<le> last (fb # fp)" using 1(4) by (cases fp) (auto simp: last_conv_nth)
  show ?case
  proof (cases "x < b")
    case True
    show ?thesis
    proof (cases "a = x")
      case True
      with \<open>x < b\<close> fab fbl show ?thesis by simp
    next
      case False
      have ax: "a \<le> x" using 1 by simp
      from interp_segment[OF ax True fab] False True fbl show ?thesis by simp
    qed
  next
    case False
    have "hd (fb # fp) \<le> interp_from x (b # xp) (fb # fp) \<and>
          interp_from x (b # xp) (fb # fp) \<le> last (fb # fp)"
      using 1 False by (intro 1(1)) simp_all
    with False fab show ?thesis by simp
  qed
qed simp_all

lemma interp_from_mono:
  assumes "length fp = length xp" "xp \<noteq> []" "sorted fp" "hd xp \<le> x" "x \<le> y"
  shows "interp_from x xp fp \<le> interp_from y xp fp"
  using assms
proof (induction x xp fp rule: interp_from.induct)
  case (1 x a b xp fa fb fp)
  have fab: "fa \<le> fb" using 1 by simp
  have ax: "a \<le> x" using 1 by simp
  show ?case
  proof (cases "x < b")
    case xb: True
    have ub: "interp_from x (a # b # xp) (fa # fb # fp) \<le> fb"
      using interp_segment(2)[OF ax xb fab] xb fab by simp
    show ?thesis
    proof (cases "y < b")
      case yb: True
      have ay: "a \<le> y" using ax 1 by simp
      show ?thesis
      proof (cases "a = x")
        case True
        then show ?thesis
          using interp_segment(1)[OF ay yb fab] xb yb by simp
      next
        case False
        then have ne: "a \<noteq> y" using ax 1 by simp
        have xy: "x \<le> y" using 1 by simp
        from interp_segment_mono[OF ax xy yb fab] False ne xb yb show ?thesis by simp
      qed
    next
      case False
      have "hd (fb # fp) \<le> interp_from y (b # xp) (fb # fp)"
        using interp_from_bounds[of "fb # fp" "b # xp" y] 1 False by simp
      with ub False show ?thesis by simp
    qed
  next
    case False
    then have "\<not> y < b" using 1 by simp
    moreover have "interp_from x (b # xp) (fb # fp) \<le> interp_from y (b # xp) (fb # fp)"
      using 1 False by (intro 1(1)) simp_all
    ultimately show ?thesis using False by simp
  qed
qed simp_all

lemma np_interp_mono:
  assumes "length fp = length xp" "xp \<noteq> []" "sorted xp" "sorted fp" "x \<le> y"
  shows "\<exists>u v. np_interp x xp fp = Inr u \<and> np_interp y xp fp = Inr v \<and> u \<le> v"
proof -
  have hl: "hd fp \<le> last fp"
    using assms by (cases fp) (auto simp: last_conv_nth)
  have b: "hd xp \<le> z \<Longrightarrow> hd fp \<le> interp_from z xp fp \<and> interp_from z xp fp \<le> last fp" for z
    using interp_from_bounds[of fp xp z] assms by simp
  have hx: "hd xp \<le> last xp"
    using assms by (cases xp) (auto simp: last_conv_nth)
  show ?thesis
  proof (cases "x < hd xp")
    case True
    then show ?thesis using assms hl b[of y] by (auto simp: np_interp_def)
  next
    case False
    then have x: "hd xp \<le> x" and y: "hd xp \<le> y" using assms by simp_all
    show ?thesis
    proof (cases "last xp < y")
      case True
      then show ?thesis using assms x y b[of x] hx by (auto simp: np_interp_def)
    next
      case False
      then have "\<not> last xp < x" using assms by simp
      then show ?thesis
        using assms x y False interp_from_mono[of fp xp x y] by (auto simp: np_interp_def)
    qed
  qed
qed


lemma cumsum_from_sorted:
  assumes "\<forall>x \<in> set xs. 0 \<le> x"
  shows "sorted (cumsum_from a xs) \<and> (\<forall>c \<in> set (cumsum_from a xs). a \<le> c)"
  using assms
proof (induction xs arbitrary: a)
  case Nil
  then show ?case by simp
next
  case (Cons x xs)
  have x: "0 \<le> x" using Cons.prems by simp
  have ih: "sorted (cumsum_from (a + x) xs) \<and> (\<forall>c \<in> set (cumsum_from (a + x) xs). a + x \<le> c)"
    using Cons.prems by (intro Cons.IH) simp
  have "\<forall>c \<in> set (cumsum_from (a + x) xs). a \<le> c"
  proof
    fix c assume "c \<in> set (cumsum_from (a + x) xs)"
    then have "a + x \<le> c" using ih by simp
    then show "a \<le> c" using x by simp
  qed
  then show ?case using ih x by simp
qed

lemma sorted_cumsum: "\<forall>x \<in> set xs. 0 \<le> x \<Longrightarrow> sorted (cumsum xs)"
  by (simp add: cumsum_def cumsum_from_sorted)

lemma sorted_map_mono:
  fixes f :: "real \<Rightarrow> real"
  assumes "sorted xs" "\<And>a b. a \<le> b \<Longrightarrow> f a \<le> f b"
  shows "sorted (map f xs)"
  using assms by (induction xs) auto

lemma sum_list_pos_real:
  fixes xs :: "real list"
  assumes "xs \<noteq> []" "\<forall>x \<in> set xs. 0 < x"
  shows "0 < sum_list xs"
  using assms
proof (induction xs)
  case Nil
  then show ?case by simp
next
  case (Cons x xs)
  show ?case
  proof (cases "xs = []")
    case True
    then show ?thesis using Cons.prems by simp
  next
    case False
    then have "0 < sum_list xs" using Cons by simp
    then show ?thesis using Cons.prems by simp
  qed
qed

lemma cred_interp_mono:
  assumes "w \<noteq> []" "length v = length w" "\<forall>x \<in> set w. 0 < x"
    "argsort_ok v (argsort lib v)" "p1 \<le> p2"
  shows "\<exists>u1 u2. cred_interp lib p1 w v = Inr u1 \<and> cred_interp lib p2 w v = Inr u2 \<and> u1 \<le> u2"
proof -
  define q where "q = argsort lib v"
  define ws where "ws = map (\<lambda>i. w ! i) q"
  define vs where "vs = map (\<lambda>i. v ! i) q"
  define cdf where "cdf = map (\<lambda>c. (c - hd ws / 2) / sum_list ws) (cumsum ws)"
  have lq: "length q = length v"
    using assms(4) argsort_ok_length unfolding q_def by blast
  have qne: "q \<noteq> []" using lq assms(1,2) by auto
  have wne: "ws \<noteq> []" using qne by (simp add: ws_def)
  have wpos: "\<forall>x \<in> set ws. 0 < x"
  proof
    fix x assume "x \<in> set ws"
    then obtain i where i: "i < length q" "x = w ! (q ! i)"
      by (auto simp: ws_def in_set_conv_nth)
    have "q ! i < length v" using argsort_ok_nth[OF assms(4)[folded q_def] i(1)] .
    then have "w ! (q ! i) \<in> set w" using assms(2) by simp
    then show "0 < x" using assms(3) i by simp
  qed
  have spos: "0 < sum_list ws" using sum_list_pos_real[OF wne wpos] .
  have wnn: "\<forall>x \<in> set ws. 0 \<le> x" using wpos by (simp add: less_imp_le)
  have sc: "sorted cdf"
    unfolding cdf_def
  proof (rule sorted_map_mono[OF sorted_cumsum[OF wnn]])
    fix a b :: real
    assume "a \<le> b"
    then show "(a - hd ws / 2) / sum_list ws \<le> (b - hd ws / 2) / sum_list ws"
      using spos by (simp add: divide_right_mono)
  qed
  have sv: "sorted vs" using assms(4) by (simp add: argsort_ok_def vs_def q_def)
  have len: "length vs = length cdf" by (simp add: vs_def cdf_def ws_def)
  have cne: "cdf \<noteq> []" using wne by (simp add: cdf_def)
  have eq: "cred_interp lib p w v = np_interp p cdf vs" for p
    using wne spos by (simp add: cred_interp_def Let_def q_def ws_def vs_def cdf_def)
  show ?thesis
    unfolding eq using np_interp_mono[OF len cne sc sv assms(5)] .
qed

lemma w_relative_of_eq:
  assumes "logw \<noteq> []"
  shows "\<exists>w. w_relative_of logw = Inr w \<and> length w = length logw \<and> (\<forall>x \<in> set w. 0 < x)"
proof -
  from assms obtain m where "np_max logw = Inr m" by (cases logw) auto
  then show ?thesis by (auto simp: w_relative_of_def)
qed

text \<open>
  Claim C8. For a run with a non-empty \<open>logw\<close>, as many radii and parameter rows as
  weights and the column \<open>param_ind - 1\<close> in every row, and for probabilities
  \<open>0 < p1 \<le> p2 < 1\<close>, the constructors of both credible-interval estimators accept
  \<open>p1\<close> and \<open>p2\<close>, both estimators return a value at each, and the value at
  \<open>p1\<close> is at most the value at \<open>p2\<close>: for the radial credible interval and
  for the credible interval of a single parameter. \<open>np.argsort\<close> is taken to return
  a sorting permutation.
\<close>

theorem cred_estimators_monotone:
  assumes "logw \<noteq> []" "0 < p1" "p1 \<le> p2" "p2 < 1"
    and "\<forall>xs. argsort_ok xs (argsort lib xs)"
    and "length (run_r rn) = length logw"
    and "length (run_theta rn) = length logw"
    and "\<forall>t \<in> set (run_theta rn). - int (length t) \<le> param_ind - 1 \<and> param_ind - 1 < int (length t)"
  shows "(\<exists>e1 e2 v1 v2. rCredEstimator p1 = Inr e1 \<and> rCredEstimator p2 = Inr e2
            \<and> estimator_value lib e1 logw rn = Inr v1
            \<and> estimator_value lib e2 logw rn = Inr v2 \<and> v1 \<le> v2)
       \<and> (\<exists>e1 e2 v1 v2. paramCredEstimator p1 param_ind = Inr e1
            \<and> paramCredEstimator p2 param_ind = Inr e2
            \<and> estimator_value lib e1 logw rn = Inr v1
            \<and> estimator_value lib e2 logw rn = Inr v2 \<and> v1 \<le> v2)"
proof -
  from w_relative_of_eq[OF assms(1)] obtain w where
    w: "w_relative_of logw = Inr w" "length w = length logw" "\<forall>x \<in> set w. 0 < x"
    by blast
  have wne: "w \<noteq> []" using w(2) assms(1) by auto
  have p: "p1 < 1" "0 < p2" using assms(2,3,4) by simp_all
  have ok: "argsort_ok v (argsort lib v)" for v using assms(5) by simp
  have br: "bcast (length logw) (run_r rn) = Inr (run_r rn)"
    using assms(6) by (simp add: bcast_def)
  from cred_interp_mono[OF wne _ w(3) ok assms(3), of "run_r rn"] obtain u1 u2 where
    u: "cred_interp lib p1 w (run_r rn) = Inr u1" "cred_interp lib p2 w (run_r rn) = Inr u2"
       "u1 \<le> u2"
    using assms(6) w(2) by auto
  define col where
    "col = map (\<lambda>t. t ! nat (if param_ind - 1 < 0 then int (length t) + (param_ind - 1)
                                 else param_ind - 1)) (run_theta rn)"
  have nc: "np_column (run_theta rn) (param_ind - 1) = Inr col"
    using assms(8) by (simp add: np_column_def col_def)
  have lc: "length col = length logw" using assms(7) by (simp add: col_def)
  have bc: "bcast (length logw) col = Inr col" using lc by (simp add: bcast_def)
  from cred_interp_mono[OF wne _ w(3) ok assms(3), of col] obtain t1 t2 where
    t: "cred_interp lib p1 w col = Inr t1" "cred_interp lib p2 w col = Inr t2" "t1 \<le> t2"
    using lc w(2) by auto
  have r: "\<exists>e1 e2 v1 v2. rCredEstimator p1 = Inr e1 \<and> rCredEstimator p2 = Inr e2
            \<and> estimator_value lib e1 logw rn = Inr v1
            \<and> estimator_value lib e2 logw rn = Inr v2 \<and> v1 \<le> v2"
    using assms(2,4) p u w(1) br by (simp add: rCredEstimator_def)
  have c: "\<exists>e1 e2 v1 v2. paramCredEstimator p1 param_ind = Inr e1
            \<and> paramCredEstimator p2 param_ind = Inr e2
            \<and> estimator_value lib e1 logw rn = Inr v1
            \<and> estimator_value lib e2 logw rn = Inr v2 \<and> v1 \<le> v2"
    using assms(2,4) p t w(1) nc bc by (simp add: paramCredEstimator_def)
  from r c show ?thesis by blast
qed


lemma example_argsort_r: "argsort example_library [3, 1, 2] = [1, 2, 0]"
  by (simp add: example_library_def argsort_stable_def upt_rec)

lemma example_argsort_theta: "argsort example_library [3, - 1, 2] = [1, 2, 0]"
  by (simp add: example_library_def argsort_stable_def upt_rec)

lemma example_rcred:
  "estimator_value example_library (RCredEstimator (1 / 4)) [0, 0, 0] example_run = Inr (5 / 4)"
  "estimator_value example_library (RCredEstimator (3 / 4)) [0, 0, 0] example_run = Inr (11 / 4)"
  by (simp_all add: w_relative_of_def bcast_def example_run_def cred_interp_def
      example_argsort_r cumsum_def np_interp_def)

lemma example_paramcred:
  "estimator_value example_library (ParamCredEstimator (1 / 4) 1) [0, 0, 0] example_run
     = Inr (- 1 / 4)"
  "estimator_value example_library (ParamCredEstimator (3 / 4) 1) [0, 0, 0] example_run
     = Inr (11 / 4)"
  by (simp_all add: w_relative_of_def bcast_def example_run_def cred_interp_def np_column_def
      example_argsort_theta cumsum_def np_interp_def)

text \<open>
  The theorem at the run with radii \<open>3, 1, 2\<close>, equal weights and the probabilities
  \<open>1/4\<close> and \<open>3/4\<close>.
\<close>

theorem cred_estimators_monotone_witness:
  "rCredEstimator (1 / 4) = Inr (RCredEstimator (1 / 4))
   \<and> rCredEstimator (3 / 4) = Inr (RCredEstimator (3 / 4))
   \<and> estimator_value example_library (RCredEstimator (1 / 4)) [0, 0, 0] example_run = Inr (5 / 4)
   \<and> estimator_value example_library (RCredEstimator (3 / 4)) [0, 0, 0] example_run = Inr (11 / 4)
   \<and> paramCredEstimator (1 / 4) 1 = Inr (ParamCredEstimator (1 / 4) 1)
   \<and> paramCredEstimator (3 / 4) 1 = Inr (ParamCredEstimator (3 / 4) 1)
   \<and> estimator_value example_library (ParamCredEstimator (1 / 4) 1) [0, 0, 0] example_run
       = Inr (- 1 / 4)
   \<and> estimator_value example_library (ParamCredEstimator (3 / 4) 1) [0, 0, 0] example_run
       = Inr (11 / 4)"
proof -
  have a: "[0, 0, 0 :: real] \<noteq> []" by simp
  have b: "(0::real) < 1 / 4" "(1::real) / 4 \<le> 3 / 4" "(3::real) / 4 < 1" by simp_all
  have c: "\<forall>xs. argsort_ok xs (argsort example_library xs)"
    by (simp add: example_library_def argsort_stable_ok)
  have d: "length (run_r example_run) = length [0, 0, 0 :: real]"
    "length (run_theta example_run) = length [0, 0, 0 :: real]"
    by (simp_all add: example_run_def)
  have e: "\<forall>t \<in> set (run_theta example_run).
             - int (length t) \<le> 1 - 1 \<and> 1 - 1 < int (length t)"
    by (simp add: example_run_def)
  from cred_estimators_monotone[OF a b c d e]
  show ?thesis
    by (simp add: rCredEstimator_def paramCredEstimator_def example_rcred example_paramcred
        del: estimator_value.simps)
qed

section \<open>The analytic reference of the median\<close>

lemma median_name_only:
  assumes "name py est = name py (ParamCredEstimator (1 / 2) k)"
  shows "\<exists>k'. est = ParamCredEstimator (1 / 2) k'"
  using assms by (cases est) (auto split: if_splits)

lemma analytical_of_median_name:
  assumes "name py est = name py (ParamCredEstimator (1 / 2) k)"
  shows "analytical py est s = Inr 0"
  using median_name_only[OF assms] by auto

lemma true_values_loop_median:
  assumes "true_values_loop py s ests out = Inr out'"
    and "out nm = None \<or> out nm = Some (Some 0)"
    and "nm = name py (ParamCredEstimator (1 / 2) k)"
  shows "(out' nm = None \<or> out' nm = Some (Some 0))
       \<and> (out nm = Some (Some 0) \<or> nm \<in> set (map (name py) ests) \<longrightarrow> out' nm = Some (Some 0))"
  using assms(1,2)
proof (induction ests arbitrary: out)
  case Nil
  then show ?case by auto
next
  case (Cons est ests)
  show ?case
  proof (cases "name py est = nm")
    case True
    then have a: "analytical py est s = Inr 0"
      using analytical_of_median_name[of py est k s] assms(3) by simp
    have l: "true_values_loop py s ests (out(nm \<mapsto> Some 0)) = Inr out'"
      using Cons.prems(1) a True by simp
    from Cons.IH[OF l] show ?thesis by simp
  next
    case False
    obtain out1 where l: "true_values_loop py s ests out1 = Inr out'" and o: "out1 nm = out nm"
      using Cons.prems(1) False
      by (auto split: sum.splits if_splits)
    from Cons.IH[OF l] o Cons.prems(2) False show ?thesis by auto
  qed
qed

lemma those_Some: "those xs = Some ys \<Longrightarrow> xs = map Some ys"
  by (induction xs arbitrary: ys) (auto split: option.splits)

lemma get_true_estimator_values_table:
  assumes "get_true_estimator_values py ests s = Inr table"
  shows "\<exists>out'. true_values_loop py s ests Map.empty = Inr out'
           \<and> map fst table = map (name py) ests
           \<and> (\<forall>(n, v) \<in> set table. out' n = Some v)"
proof -
  from assms obtain out' entries where
    l: "true_values_loop py s ests Map.empty = Inr out'" and
    t: "those (map out' (map (name py) ests)) = Some entries" and
    z: "table = zip (map (name py) ests) entries"
    by (auto simp: get_true_estimator_values_def Let_def split: sum.splits option.splits)
  have m: "map out' (map (name py) ests) = map Some entries" using those_Some[OF t] .
  then have len: "length entries = length ests" by (metis length_map)
  have f: "map fst table = map (name py) ests" using z len by simp
  have "\<forall>(n, v) \<in> set table. out' n = Some v"
  proof (clarify)
    fix n v assume "(n, v) \<in> set table"
    then obtain i where i: "i < length ests" "n = map (name py) ests ! i" "v = entries ! i"
      using z len by (auto simp: set_zip)
    have "map out' (map (name py) ests) ! i = map Some entries ! i" using m by simp
    then show "out' n = Some v" using i len by simp
  qed
  with l f show ?thesis by blast
qed

text \<open>
  Claim C10. With probability \<open>0.5\<close> the constructor of \<open>paramCredEstimator\<close>
  succeeds, and \<open>analytical\<close> returns \<open>0\<close> for every settings object and every
  parameter index: whatever the likelihood and the prior are, and also when they
  or their scales are absent, no assertion is evaluated and nothing is raised. The
  table of reference values for the median alone is its one column with the entry
  \<open>0\<close>; and in every table that the helper returns for a list holding the median,
  the column of the median's name has the entry \<open>0\<close> and not not-a-number, also
  when other estimators of the list have written to the same name.
\<close>

theorem median_analytical_zero:
  "paramCredEstimator (1 / 2) param_ind = Inr (ParamCredEstimator (1 / 2) param_ind)
   \<and> analytical py (ParamCredEstimator (1 / 2) param_ind) s = Inr 0
   \<and> get_true_estimator_values py [ParamCredEstimator (1 / 2) param_ind] s
       = Inr [(name py (ParamCredEstimator (1 / 2) param_ind), Some 0)]
   \<and> (\<forall>ests table.
         ParamCredEstimator (1 / 2) param_ind \<in> set ests
         \<and> get_true_estimator_values py ests s = Inr table
         \<longrightarrow> (name py (ParamCredEstimator (1 / 2) param_ind), Some 0) \<in> set table
           \<and> (name py (ParamCredEstimator (1 / 2) param_ind), None) \<notin> set table)"
proof -
  define nm where "nm = name py (ParamCredEstimator (1 / 2) param_ind)"
  have a: "paramCredEstimator (1 / 2) param_ind = Inr (ParamCredEstimator (1 / 2) param_ind)"
    by (simp add: paramCredEstimator_def)
  have b: "analytical py (ParamCredEstimator (1 / 2) param_ind) s = Inr 0" by simp
  have c: "get_true_estimator_values py [ParamCredEstimator (1 / 2) param_ind] s
       = Inr [(name py (ParamCredEstimator (1 / 2) param_ind), Some 0)]"
    by (simp add: get_true_estimator_values_def)
  have d: "(nm, Some 0) \<in> set table \<and> (nm, None) \<notin> set table"
    if m: "ParamCredEstimator (1 / 2) param_ind \<in> set ests"
      and g: "get_true_estimator_values py ests s = Inr table" for ests table
  proof -
    from get_true_estimator_values_table[OF g] obtain out' where
      l: "true_values_loop py s ests Map.empty = Inr out'" and
      f: "map fst table = map (name py) ests" and
      t: "\<forall>(n, v) \<in> set table. out' n = Some v"
      by blast
    have i: "nm \<in> set (map (name py) ests)"
      unfolding nm_def set_map by (rule imageI[OF m])
    then have o: "out' nm = Some (Some 0)"
      using true_values_loop_median[OF l _ nm_def] by simp
    have "nm \<in> fst ` set table" using f i
      by (metis set_map)
    then obtain v where v: "(nm, v) \<in> set table" by force
    then have "v = Some 0" using t o by auto
    moreover have "(nm, None) \<notin> set table" using t o by auto
    ultimately show ?thesis using v by simp
  qed
  show ?thesis using a b c d unfolding nm_def by blast
qed

text \<open>
  The theorem at settings with a Cauchy likelihood and a uniform prior: the \<open>0.25\<close>
  credible interval fails its assertion and becomes not-a-number, the median is \<open>0\<close>.
\<close>

theorem median_analytical_zero_witness:
  "get_true_estimator_values example_pylib
      [NSamplesEstimator, ParamCredEstimator (1 / 2) 1, ParamCredEstimator (1 / 4) 1]
      example_est_settings
     = Inr [(''n_samples'', None), (''Median(theta1)'', Some 0), (''theta1c_0.25'', None)]
   \<and> analytical example_pylib (ParamCredEstimator (1 / 4) 1) example_est_settings
       = Inl AssertionError
   \<and> analytical example_pylib (ParamCredEstimator (1 / 2) 1) example_est_settings = Inr 0
   \<and> name example_pylib (ParamCredEstimator (1 / 2) 1) = ''Median(theta1)''"
proof -
  have g: "get_true_estimator_values example_pylib
      [NSamplesEstimator, ParamCredEstimator (1 / 2) 1, ParamCredEstimator (1 / 4) 1]
      example_est_settings
     = Inr [(''n_samples'', None), (''Median(theta1)'', Some 0), (''theta1c_0.25'', None)]"
    by (simp add: get_true_estimator_values_def example_pylib_def example_est_settings_def
        param_cred_sigma_def)
  have m: "ParamCredEstimator (1 / 2) 1
             \<in> set [NSamplesEstimator, ParamCredEstimator (1 / 2) 1, ParamCredEstimator (1 / 4) 1]"
    by simp
  have n: "name example_pylib (ParamCredEstimator (1 / 2) 1) = ''Median(theta1)''"
    by (simp add: example_pylib_def)
  have e: "analytical example_pylib (ParamCredEstimator (1 / 4) 1) example_est_settings
       = Inl AssertionError"
    by (simp add: example_est_settings_def param_cred_sigma_def)
  note t = median_analytical_zero[of 1 example_pylib example_est_settings]
  from t have a: "analytical example_pylib (ParamCredEstimator (1 / 2) 1) example_est_settings
      = Inr 0"
    by blast
  from t have "\<forall>ests table.
         ParamCredEstimator (1 / 2) 1 \<in> set ests
         \<and> get_true_estimator_values example_pylib ests example_est_settings = Inr table
         \<longrightarrow> (name example_pylib (ParamCredEstimator (1 / 2) 1), Some 0) \<in> set table
           \<and> (name example_pylib (ParamCredEstimator (1 / 2) 1), None) \<notin> set table"
    by blast
  from this[rule_format, OF conjI[OF m g]] a g n e show ?thesis by simp
qed

end
